theory Spec2Isabelle
  imports Complex_Main "HOL-Library.AList"
begin

section \<open>Python values and errors\<close>

text \<open>
  The module \<^verbatim>\<open>apogee/modelspec/ferre.py\<close> prepares the two input files of the
  external program FERRE and launches it. Its functions are embedded as HOL functions;
  every exception the source can raise is a value \<open>Inl e\<close> of the result.

  A Python float is an IEEE double: a signed zero, a finite non-zero value (always a
  rational number), an infinity or a NaN. \<open>Finite q\<close> stands for the double whose exact
  value is \<open>q\<close>; the model admits every rational there, which covers every double.
\<close>

datatype pyfloat = Finite rat | NegZero | PosInf | NegInf | NaN

text \<open>
  The values that reach the functions of the module: \<^verbatim>\<open>None\<close>, a number, a string (the
  directory), and a numpy array given by the list of its items along the first axis (a
  two-dimensional array is an \<open>Arr\<close> of \<open>Arr\<close> rows). \<open>Num\<close> is a Python float, also
  as an entry of an array; \<open>NpNum\<close> is a numpy scalar or zero-dimensional array standing
  alone, which formats like a float but raises \<^verbatim>\<open>IndexError\<close>, not \<^verbatim>\<open>TypeError\<close>, when
  indexed.
\<close>

datatype pyval = PyNone | Num pyfloat | NpNum pyfloat | Str string | Arr "pyval list"

datatype error =
    IndexError
  | TypeError
  | IOError string
  | OSError string
  | PyException string

section \<open>Text formatting\<close>

text \<open>The decimal digits of a natural number, most significant first.\<close>

fun digits_nat :: "nat \<Rightarrow> string" where
  "digits_nat n =
     (if n < 10 then [''0123456789'' ! n]
      else digits_nat (n div 10) @ [''0123456789'' ! (n mod 10)])"

declare digits_nat.simps [simp del]

text \<open>\<^verbatim>\<open>'%i' % n\<close> for a Python integer \<open>n\<close>.\<close>

definition fmt_i :: "int \<Rightarrow> string" where
  "fmt_i n = (if n < 0 then ''-'' @ digits_nat (nat (- n)) else digits_nat (nat n))"

text \<open>
  The lines of a text, as Python's \<^verbatim>\<open>splitlines\<close> and file iteration give them for the
  line terminator \<^verbatim>\<open>\n\<close>: a terminator ends a line, and text after the last terminator
  is one more line.
\<close>

fun lines_of :: "string \<Rightarrow> string list" where
  "lines_of [] = []"
| "lines_of (x # xs) =
     (if x = CHR ''\<newline>'' then [] # lines_of xs
      else (case lines_of xs of [] \<Rightarrow> [[x]] | l # ls \<Rightarrow> (x # l) # ls))"

section \<open>The file system\<close>

text \<open>
  A file system holds the contents of its regular files by path. Whether a path can be
  opened for writing (its directory exists, permissions allow it) is a property of the
  environment, kept as the field \<open>can_open_w\<close>.
\<close>

record filesystem =
  files :: "string \<rightharpoonup> string"
  can_open_w :: "string \<Rightarrow> bool"

text \<open>\<^verbatim>\<open>os.path.join(a, b)\<close> on a POSIX system.\<close>

definition path_join :: "string \<Rightarrow> string \<Rightarrow> string" where
  "path_join a b =
     (if b \<noteq> [] \<and> hd b = CHR ''/'' then b
      else if a = [] \<or> last a = CHR ''/'' then a @ b
      else a @ ''/'' @ b)"

text \<open>\<^verbatim>\<open>open(path, 'w')\<close>: the file is created or truncated, or the call raises.\<close>

definition open_w :: "filesystem \<Rightarrow> string \<Rightarrow> error + filesystem" where
  "open_w fs path =
     (if can_open_w fs path then Inr (fs\<lparr>files := (files fs)(path \<mapsto> [])\<rparr>)
      else Inl (IOError path))"

text \<open>\<^verbatim>\<open>outfile.write(s)\<close> on the file opened at \<open>path\<close>: the text is appended.\<close>

definition file_write :: "string \<Rightarrow> filesystem \<Rightarrow> string \<Rightarrow> filesystem" where
  "file_write path fs s =
     fs\<lparr>files := (files fs)(path \<mapsto> (case files fs path of None \<Rightarrow> s | Some c \<Rightarrow> c @ s))\<rparr>"

text \<open>Reading a file back as its list of lines.\<close>

definition read_lines :: "filesystem \<Rightarrow> string \<Rightarrow> string list option" where
  "read_lines fs path = map_option lines_of (files fs path)"

section \<open>\<^verbatim>\<open>write_input_nml\<close>\<close>

text \<open>
  The loop of lines 94 to 96 of the source:
  \<^verbatim>\<open>indvstr= 'INDV ='; for ii in range(1,ndim+1): indvstr+= ' %i' % ii\<close>
\<close>

definition indvstr :: "int \<Rightarrow> string" where
  "indvstr ndim = foldl (\<lambda>s ii. s @ '' '' @ fmt_i ii) ''INDV ='' [1..ndim]"

text \<open>The texts passed to \<^verbatim>\<open>outfile.write\<close>, in the order of the calls.\<close>

definition input_nml_writes ::
  "string \<Rightarrow> string \<Rightarrow> int \<Rightarrow> int \<Rightarrow> string \<Rightarrow> int \<Rightarrow> int \<Rightarrow> int \<Rightarrow> string list" where
  "input_nml_writes pfile offile ndim nov synthfile inter' f_format f_access =
     [''&LISTA\<newline>'',
      ''NDIM = '' @ fmt_i ndim @ ''\<newline>'',
      ''NOV = '' @ fmt_i nov @ ''\<newline>'',
      indvstr ndim @ ''\<newline>'',
      ''SYNTHFILE(1) = '' @ [CHR 0x27] @ synthfile @ [CHR 0x27] @ ''\<newline>'',
      ''PFILE = '' @ [CHR 0x27] @ pfile @ [CHR 0x27] @ ''\<newline>'',
      ''OFFILE = '' @ [CHR 0x27] @ offile @ [CHR 0x27] @ ''\<newline>'',
      ''INTER = '' @ fmt_i inter' @ ''\<newline>'',
      ''F_FORMAT = '' @ fmt_i f_format @ ''\<newline>'',
      ''F_ACCESS = '' @ fmt_i f_access @ ''\<newline>'',
      ''/\<newline>'']"

text \<open>
  \<^verbatim>\<open>write_input_nml(dir, pfile, offile, ndim, nov, synthfile, inter, f_format, f_access)\<close>.
  The function \<^verbatim>\<open>apogee.tools.path.ferreModelLibraryPath\<close> is not part of this module;
  the path it returns for \<^verbatim>\<open>header=True\<close> is the parameter \<open>ferreModelLibraryPath\<close>.
  The result is the returned value (or the error raised) and the file system afterwards.
\<close>

definition write_input_nml ::
  "string \<Rightarrow> filesystem \<Rightarrow> string \<Rightarrow> string \<Rightarrow> string \<Rightarrow> int \<Rightarrow> int \<Rightarrow> string option
     \<Rightarrow> int \<Rightarrow> int \<Rightarrow> int \<Rightarrow> (error + pyval) \<times> filesystem" where
  "write_input_nml ferreModelLibraryPath fs dir pfile offile ndim nov synthfile
       inter' f_format f_access =
     (let synthfile' = (case synthfile of None \<Rightarrow> ferreModelLibraryPath | Some s \<Rightarrow> s);
          path = path_join dir ''input.nml''
      in case open_w fs path of
           Inl e \<Rightarrow> (Inl e, fs)
         | Inr outfile \<Rightarrow>
             (Inr PyNone,
              foldl (file_write path) outfile
                (input_nml_writes pfile offile ndim nov synthfile' inter' f_format f_access)))"

section \<open>\<^verbatim>\<open>run_ferre\<close>\<close>

text \<open>
  What \<^verbatim>\<open>subprocess.check_call(['ferre'], cwd=dir, stdout=..., stderr=...)\<close> meets: either the
  program cannot be started, and the call raises \<^verbatim>\<open>OSError\<close>, or the program runs, emits
  text on its output and error streams and exits with a return code.
\<close>

datatype process_outcome = CannotStart string | Exited int string string

text \<open>
  \<^verbatim>\<open>run_ferre(dir, verbose)\<close>. The parameter \<open>launch\<close> is the environment: the outcome of
  running a command in a working directory, with both streams piped or inherited.
  \<^verbatim>\<open>check_call\<close> raises \<^verbatim>\<open>CalledProcessError\<close> on a return code other than zero, which the
  source catches and replaces.
\<close>

definition run_ferre ::
  "(string list \<Rightarrow> string \<Rightarrow> bool \<Rightarrow> process_outcome) \<Rightarrow> string \<Rightarrow> bool \<Rightarrow> error + pyval" where
  "run_ferre launch dir verbose =
     (let piped = \<not> verbose
      in case launch [''ferre''] dir piped of
           CannotStart msg \<Rightarrow> Inl (OSError msg)
         | Exited returncode out err \<Rightarrow>
             if returncode \<noteq> 0
             then Inl (PyException (''Running FERRE instance in directory '' @ dir @ '' failed ...''))
             else Inr PyNone)"

text \<open>Three environments: the program succeeds, fails with status 1, or is not installed.\<close>

definition ferre_succeeds :: "string list \<Rightarrow> string \<Rightarrow> bool \<Rightarrow> process_outcome" where
  "ferre_succeeds cmd cwd piped = Exited 0 ''done'' ''''"

definition ferre_fails :: "string list \<Rightarrow> string \<Rightarrow> bool \<Rightarrow> process_outcome" where
  "ferre_fails cmd cwd piped = Exited 1 '''' ''cannot read input.nml''"

definition ferre_missing :: "string list \<Rightarrow> string \<Rightarrow> bool \<Rightarrow> process_outcome" where
  "ferre_missing cmd cwd piped = CannotStart ''No such file or directory''"

section \<open>Floating-point formatting\<close>

text \<open>
  \<^verbatim>\<open>'%.pf' % x\<close> prints the decimal numeral with \<open>p\<close> digits after the point nearest to
  the exact value of the double \<open>x\<close>, a tie going to the even last digit, with a minus sign
  when the sign bit is set; infinities and NaN print as words.
\<close>

definition round_half_even :: "rat \<Rightarrow> int" where
  "round_half_even q =
     (let f = \<lfloor>q\<rfloor>; r = q - of_int f
      in if r < 1 / 2 then f else if 1 / 2 < r then f + 1 else if even f then f else f + 1)"

text \<open>The digits of a magnitude \<open>m \<ge> 0\<close>: integer part, point, \<open>p\<close> decimals.\<close>

definition fmt_fixed :: "nat \<Rightarrow> rat \<Rightarrow> string" where
  "fmt_fixed p m =
     (let n = nat (round_half_even (m * 10 ^ p));
          frac = digits_nat (n mod 10 ^ p)
      in digits_nat (n div 10 ^ p) @
         (if p = 0 then [] else ''.'' @ replicate (p - length frac) (CHR ''0'') @ frac))"

fun fmt_f :: "nat \<Rightarrow> pyfloat \<Rightarrow> string" where
  "fmt_f p (Finite q) = (if q < 0 then ''-'' else []) @ fmt_fixed p \<bar>q\<bar>"
| "fmt_f p NegZero = ''-'' @ fmt_fixed p 0"
| "fmt_f p PosInf = ''inf''"
| "fmt_f p NegInf = ''-inf''"
| "fmt_f p NaN = ''nan''"

text \<open>
  The fields of a line, as \<^verbatim>\<open>line.split(' ')\<close> gives them: every separator ends a field.
\<close>

fun split_on :: "char \<Rightarrow> string \<Rightarrow> string list" where
  "split_on c [] = [[]]"
| "split_on c (x # xs) =
     (if x = c then [] # split_on c xs
      else (case split_on c xs of [] \<Rightarrow> [[x]] | w # ws \<Rightarrow> (x # w) # ws))"

section \<open>The decorator \<^verbatim>\<open>paramArrayInputDecorator\<close>\<close>

text \<open>
  A call \<^verbatim>\<open>func(*args, **kwargs)\<close> takes the positional arguments, the keyword arguments
  (a dictionary, kept as an association list) and the state of the world, and gives the
  value returned or the error raised, and the state afterwards.
\<close>

type_synonym kwargs = "(string \<times> pyval) list"

type_synonym 's pyfun = "pyval list \<Rightarrow> kwargs \<Rightarrow> 's \<Rightarrow> (error + pyval) \<times> 's"

text \<open>\<^verbatim>\<open>numpy.array(v).shape == ()\<close>: true of everything but an array with an axis.\<close>

fun shape_is_unit :: "pyval \<Rightarrow> bool" where
  "shape_is_unit (Arr xs) = False"
| "shape_is_unit v = True"

text \<open>
  \<^verbatim>\<open>result[0,:]\<close>: the first row of an array of two or more dimensions. An array of one
  dimension and a numpy scalar have too few axes for the two indices, an empty array has
  no row 0, and a Python float, a string or \<^verbatim>\<open>None\<close> cannot be indexed by a tuple.
\<close>

fun getitem_0_all :: "pyval \<Rightarrow> error + pyval" where
  "getitem_0_all (Arr []) = Inl IndexError"
| "getitem_0_all (Arr (Arr row # rows)) = Inr (Arr row)"
| "getitem_0_all (Arr (x # rows)) = Inl IndexError"
| "getitem_0_all (NpNum x) = Inl IndexError"
| "getitem_0_all v = Inl TypeError"

text \<open>
  Lines 15 to 17 of the source: every argument after the first becomes
  \<^verbatim>\<open>numpy.array([arg])\<close>.
\<close>

definition scalar_args :: "pyval list \<Rightarrow> pyval list" where
  "scalar_args args =
     foldl (\<lambda>newargs ii. newargs @ [Arr [args ! (ii + 1)]]) [args ! 0] [0..<length args - 1]"

text \<open>Lines 19 and 20: a keyword argument \<^verbatim>\<open>vm\<close> other than \<^verbatim>\<open>None\<close> is wrapped too.\<close>

definition scalar_kwargs :: "kwargs \<Rightarrow> kwargs" where
  "scalar_kwargs kwargs =
     (case map_of kwargs ''vm'' of
        None \<Rightarrow> kwargs
      | Some PyNone \<Rightarrow> kwargs
      | Some v \<Rightarrow> AList.update ''vm'' (Arr [v]) kwargs)"

text \<open>
  \<^verbatim>\<open>scalar_wrapper(*args, **kwargs)\<close>, the function the decorator returns for \<open>func\<close>.
  \<^verbatim>\<open>args[1]\<close> raises \<^verbatim>\<open>IndexError\<close> when there are fewer than two positional arguments.
\<close>

definition scalar_wrapper :: "'s pyfun \<Rightarrow> 's pyfun" where
  "scalar_wrapper func args kwargs s =
     (if length args < 2 then (Inl IndexError, s)
      else
        let scalarOut = shape_is_unit (args ! 1);
            args' = (if scalarOut then scalar_args args else args);
            kwargs' = (if scalarOut then scalar_kwargs kwargs else kwargs)
        in case func args' kwargs' s of
             (Inl e, s') \<Rightarrow> (Inl e, s')
           | (Inr result, s') \<Rightarrow>
               if result = PyNone then (Inr result, s')
               else if scalarOut then (getitem_0_all result, s')
               else (Inr result, s'))"

text \<open>
  The result of a call indexed at position 0, \<^verbatim>\<open>result[0]\<close>: the reading of the
  specification of what a scalar call returns.
\<close>

fun item_0 :: "pyval \<Rightarrow> error + pyval" where
  "item_0 (Arr (x # xs)) = Inr x"
| "item_0 (Arr []) = Inl IndexError"
| "item_0 (Str (c # cs)) = Inr (Str [c])"
| "item_0 (Str []) = Inl IndexError"
| "item_0 (NpNum x) = Inl IndexError"
| "item_0 v = Inl TypeError"

text \<open>
  Two functions to decorate: one returns a row \<^verbatim>\<open>[t, t]\<close> for every entry \<open>t\<close> of its
  second argument, a two-dimensional array; the other returns its second argument, a
  one-dimensional array.
\<close>

definition rows_of_teff :: "unit pyfun" where
  "rows_of_teff args kwargs s =
     (case args ! 1 of
        Arr ts \<Rightarrow> (Inr (Arr (map (\<lambda>t. Arr [t, t]) ts)), s)
      | _ \<Rightarrow> (Inl TypeError, s))"

definition teff_itself :: "unit pyfun" where
  "teff_itself args kwargs s = (Inr (args ! 1), s)"

section \<open>\<^verbatim>\<open>write_interpolate_ipf\<close>\<close>

text \<open>Sequencing of steps that may raise: the first error ends the computation.\<close>

definition bind_result :: "error + 'a \<Rightarrow> ('a \<Rightarrow> error + 'b) \<Rightarrow> error + 'b" where
  "bind_result r f = (case r of Inl e \<Rightarrow> Inl e | Inr x \<Rightarrow> f x)"

text \<open>\<^verbatim>\<open>len(v)\<close>.\<close>

fun py_len :: "pyval \<Rightarrow> error + nat" where
  "py_len (Arr xs) = Inr (length xs)"
| "py_len (Str s) = Inr (length s)"
| "py_len v = Inl TypeError"

text \<open>
  \<^verbatim>\<open>v[ii]\<close> for an index \<open>ii \<ge> 0\<close>: out of range raises \<^verbatim>\<open>IndexError\<close>, as does any
  index into a numpy scalar; a Python float and \<^verbatim>\<open>None\<close> raise \<^verbatim>\<open>TypeError\<close>.
\<close>

fun getitem :: "pyval \<Rightarrow> nat \<Rightarrow> error + pyval" where
  "getitem (Arr xs) ii = (if ii < length xs then Inr (xs ! ii) else Inl IndexError)"
| "getitem (Str s) ii = (if ii < length s then Inr (Str [s ! ii]) else Inl IndexError)"
| "getitem (NpNum x) ii = Inl IndexError"
| "getitem v ii = Inl TypeError"

text \<open>
  The number that \<^verbatim>\<open>%f\<close> formats: a number itself, the single entry of an array of size
  one; anything else raises \<^verbatim>\<open>TypeError\<close>.
\<close>

fun to_float :: "pyval \<Rightarrow> error + pyfloat" where
  "to_float (Num x) = Inr x"
| "to_float (NpNum x) = Inr x"
| "to_float (Arr [v]) = to_float v"
| "to_float v = Inl TypeError"

text \<open>
  Binding of the call \<^verbatim>\<open>func(*args, **kwargs)\<close> to the parameters
  \<^verbatim>\<open>(dir, teff, logg, metals, am, nm, cm, vm=None)\<close>: too many positional arguments, a
  keyword that is no parameter or is already given by position, or a missing required
  parameter raise \<^verbatim>\<open>TypeError\<close>.
\<close>

definition param_names :: "string list" where
  "param_names = [''dir'', ''teff'', ''logg'', ''metals'', ''am'', ''nm'', ''cm'', ''vm'']"

definition bind_params :: "pyval list \<Rightarrow> kwargs \<Rightarrow> error + pyval list" where
  "bind_params args kwargs =
     (if 8 < length args then Inl TypeError
      else if \<exists>k \<in> set (map fst kwargs). k \<notin> set (drop (length args) param_names)
      then Inl TypeError
      else
        let slots = map Some args @ map (map_of kwargs) (drop (length args) param_names)
        in if None \<in> set (take 7 slots) then Inl TypeError
           else Inr (map the (take 7 slots) @
                     [case slots ! 7 of None \<Rightarrow> PyNone | Some v \<Rightarrow> v]))"

text \<open>
  Lines 132 to 137 of the source: the text of the record \<open>ii\<close>. The items are read in the
  order the source names them, then formatted. \<^verbatim>\<open>numpy.log10\<close> is a library function on
  doubles, the parameter \<open>np_log10\<close>.
\<close>

definition ipf_line ::
  "(pyfloat \<Rightarrow> pyfloat) \<Rightarrow> pyval \<Rightarrow> pyval \<Rightarrow> pyval \<Rightarrow> pyval \<Rightarrow> pyval \<Rightarrow> pyval \<Rightarrow> pyval \<Rightarrow> nat
     \<Rightarrow> error + string" where
  "ipf_line np_log10 teff logg metals am nm cm vm ii =
     bind_result
       (if vm \<noteq> PyNone
        then bind_result (getitem vm ii) (\<lambda>v.
             bind_result (to_float v) (\<lambda>x.
             Inr (''dummy '' @ fmt_f 3 (np_log10 x) @ '' '')))
        else Inr ''dummy '')
       (\<lambda>outStr.
          bind_result (getitem cm ii) (\<lambda>c.
          bind_result (getitem nm ii) (\<lambda>n.
          bind_result (getitem am ii) (\<lambda>a.
          bind_result (getitem metals ii) (\<lambda>m.
          bind_result (getitem logg ii) (\<lambda>g.
          bind_result (getitem teff ii) (\<lambda>t.
          bind_result (to_float c) (\<lambda>c'.
          bind_result (to_float n) (\<lambda>n'.
          bind_result (to_float a) (\<lambda>a'.
          bind_result (to_float m) (\<lambda>m'.
          bind_result (to_float g) (\<lambda>g'.
          bind_result (to_float t) (\<lambda>t'.
          Inr (outStr @ fmt_f 3 c' @ '' '' @ fmt_f 3 n' @ '' '' @ fmt_f 3 a' @ '' '' @
               fmt_f 3 m' @ '' '' @ fmt_f 3 g' @ '' '' @ fmt_f 1 t' @ ''\<newline>''))))))))))))))"

text \<open>
  The loop \<^verbatim>\<open>for ii in range(len(teff))\<close> over the open file: each record is written as
  soon as its text is built, and an error leaves the file with the records written so far.
\<close>

fun ipf_loop ::
  "(nat \<Rightarrow> error + string) \<Rightarrow> string \<Rightarrow> nat list \<Rightarrow> filesystem \<Rightarrow> (error + pyval) \<times> filesystem" where
  "ipf_loop line path [] fs = (Inr PyNone, fs)"
| "ipf_loop line path (ii # iis) fs =
     (case line ii of
        Inl e \<Rightarrow> (Inl e, fs)
      | Inr outStr \<Rightarrow> ipf_loop line path iis (file_write path fs outStr))"

text \<open>The function as written, before the decorator is applied.\<close>

definition write_interpolate_ipf_undecorated :: "(pyfloat \<Rightarrow> pyfloat) \<Rightarrow> filesystem pyfun" where
  "write_interpolate_ipf_undecorated np_log10 args kwargs fs =
     (case bind_params args kwargs of
        Inl e \<Rightarrow> (Inl e, fs)
      | Inr ps \<Rightarrow>
          (case ps ! 0 of
             Str dir \<Rightarrow>
               (case open_w fs (path_join dir ''input.ipf'') of
                  Inl e \<Rightarrow> (Inl e, fs)
                | Inr outfile \<Rightarrow>
                    (case py_len (ps ! 1) of
                       Inl e \<Rightarrow> (Inl e, outfile)
                     | Inr n \<Rightarrow>
                         ipf_loop
                           (ipf_line np_log10 (ps ! 1) (ps ! 2) (ps ! 3) (ps ! 4) (ps ! 5)
                              (ps ! 6) (ps ! 7))
                           (path_join dir ''input.ipf'') [0..<n] outfile))
           | _ \<Rightarrow> (Inl TypeError, fs)))"

text \<open>\<^verbatim>\<open>write_interpolate_ipf\<close>, the decorated function of the module.\<close>

definition write_interpolate_ipf :: "(pyfloat \<Rightarrow> pyfloat) \<Rightarrow> filesystem pyfun" where
  "write_interpolate_ipf np_log10 = scalar_wrapper (write_interpolate_ipf_undecorated np_log10)"

text \<open>
  A stand-in for \<^verbatim>\<open>numpy.log10\<close> that is exact on the powers of ten used in examples.
\<close>

definition log10_sample :: "pyfloat \<Rightarrow> pyfloat" where
  "log10_sample x =
     (if x = Finite 1 then Finite 0 else if x = Finite 10 then Finite 1
      else if x = Finite 100 then Finite 2 else NaN)"

section \<open>Calls on arrays of numbers and the records they describe\<close>

text \<open>
  A call of \<^verbatim>\<open>write_interpolate_ipf\<close> on one-dimensional arrays of numbers: the positional
  arguments, and the keyword arguments without or with a microturbulence array.
\<close>

definition ipf_args ::
  "string \<Rightarrow> pyfloat list \<Rightarrow> pyfloat list \<Rightarrow> pyfloat list \<Rightarrow> pyfloat list \<Rightarrow> pyfloat list
     \<Rightarrow> pyfloat list \<Rightarrow> pyval list" where
  "ipf_args dir teff logg metals am nm cm =
     [Str dir, Arr (map Num teff), Arr (map Num logg), Arr (map Num metals), Arr (map Num am),
      Arr (map Num nm), Arr (map Num cm)]"

definition vm_kwargs :: "pyfloat list option \<Rightarrow> kwargs" where
  "vm_kwargs vm = (case vm of None \<Rightarrow> [] | Some vs \<Rightarrow> [(''vm'', Arr (map Num vs))])"

definition vm_val :: "pyfloat list option \<Rightarrow> pyval" where
  "vm_val vm = (case vm of None \<Rightarrow> PyNone | Some vs \<Rightarrow> Arr (map Num vs))"

text \<open>
  The fields of a record as the specification lists them: the placeholder, the base-10
  logarithm of the microturbulence to 3 decimals when there is one, then carbon, nitrogen,
  alpha, metallicity and surface gravity to 3 decimals and the effective temperature to 1
  decimal.
\<close>

definition record_fields ::
  "(pyfloat \<Rightarrow> pyfloat) \<Rightarrow> pyfloat \<Rightarrow> pyfloat \<Rightarrow> pyfloat \<Rightarrow> pyfloat \<Rightarrow> pyfloat \<Rightarrow> pyfloat
     \<Rightarrow> pyfloat option \<Rightarrow> string list" where
  "record_fields np_log10 teff logg metals am nm cm vm =
     [''dummy''] @ (case vm of None \<Rightarrow> [] | Some v \<Rightarrow> [fmt_f 3 (np_log10 v)]) @
     [fmt_f 3 cm, fmt_f 3 nm, fmt_f 3 am, fmt_f 3 metals, fmt_f 3 logg, fmt_f 1 teff]"

text \<open>Fields joined by single spaces, \<^verbatim>\<open>' '.join(fields)\<close>.\<close>

fun join_with_space :: "string list \<Rightarrow> string" where
  "join_with_space [] = []"
| "join_with_space [w] = w"
| "join_with_space (w # ws) = w @ '' '' @ join_with_space ws"

text \<open>The line of the record at position \<open>i\<close> of the parameter arrays.\<close>

definition record_line ::
  "(pyfloat \<Rightarrow> pyfloat) \<Rightarrow> pyfloat list \<Rightarrow> pyfloat list \<Rightarrow> pyfloat list \<Rightarrow> pyfloat list
     \<Rightarrow> pyfloat list \<Rightarrow> pyfloat list \<Rightarrow> pyfloat list option \<Rightarrow> nat \<Rightarrow> string" where
  "record_line np_log10 teff logg metals am nm cm vm i =
     join_with_space
       (record_fields np_log10 (teff ! i) (logg ! i) (metals ! i) (am ! i) (nm ! i) (cm ! i)
          (map_option (\<lambda>vs. vs ! i) vm))"

text \<open>The length of the shortest parameter array other than the effective temperature.\<close>

definition shortest_other ::
  "pyfloat list \<Rightarrow> pyfloat list \<Rightarrow> pyfloat list \<Rightarrow> pyfloat list \<Rightarrow> pyfloat list
     \<Rightarrow> pyfloat list option \<Rightarrow> nat" where
  "shortest_other logg metals am nm cm vm =
     min (length logg) (min (length metals) (min (length am) (min (length nm)
       (case vm of None \<Rightarrow> length cm | Some vs \<Rightarrow> min (length cm) (length vs)))))"

text \<open>
  Sample parameter arrays of two stars, a microturbulence array, and a surface gravity
  array that is one entry short.
\<close>

definition sample_teff :: "pyfloat list" where
  "sample_teff = [Finite 4750, Finite 5000]"

definition sample_logg :: "pyfloat list" where
  "sample_logg = [Finite (5 / 2), Finite (5 / 2)]"

definition sample_metals :: "pyfloat list" where
  "sample_metals = [Finite (- 1 / 4), Finite 0]"

definition sample_zero :: "pyfloat list" where
  "sample_zero = [Finite 0, Finite 0]"

definition sample_cm :: "pyfloat list" where
  "sample_cm = [Finite 0, Finite 1, Finite 1]"

definition sample_vm :: "pyfloat list" where
  "sample_vm = [Finite 10, Finite 1]"

definition sample_short :: "pyfloat list" where
  "sample_short = [Finite (5 / 2)]"

text \<open>
  A third function to decorate, which reads the keyword \<^verbatim>\<open>vm\<close>: with a microturbulence
  array it returns a row \<^verbatim>\<open>[t, v]\<close> for every pair of entries of its second argument and
  of \<^verbatim>\<open>vm\<close>, without one (or with \<^verbatim>\<open>None\<close>) a row \<^verbatim>\<open>[t]\<close>; a \<^verbatim>\<open>vm\<close> that is no array
  raises.
\<close>

definition rows_with_vm :: "unit pyfun" where
  "rows_with_vm args kwargs s =
     (case args ! 1 of
        Arr ts \<Rightarrow>
          (case map_of kwargs ''vm'' of
             None \<Rightarrow> (Inr (Arr (map (\<lambda>t. Arr [t]) ts)), s)
           | Some PyNone \<Rightarrow> (Inr (Arr (map (\<lambda>t. Arr [t]) ts)), s)
           | Some (Arr vs) \<Rightarrow> (Inr (Arr (map (\<lambda>(t, v). Arr [t, v]) (zip ts vs))), s)
           | Some _ \<Rightarrow> (Inl TypeError, s))
      | _ \<Rightarrow> (Inl TypeError, s))"

section \<open>Reading a printed number back\<close>

text \<open>
  What a printed field says, independently of how it was printed: the field without its
  sign, the digits before and after the point, and the rational number the digits denote.
\<close>

definition is_digit :: "char \<Rightarrow> bool" where
  "is_digit c = (c \<in> set ''0123456789'')"

definition digit_value :: "char \<Rightarrow> nat" where
  "digit_value c = length (takeWhile (\<lambda>d. d \<noteq> c) ''0123456789'')"

definition digits_value :: "string \<Rightarrow> nat" where
  "digits_value ds = foldl (\<lambda>a c. 10 * a + digit_value c) 0 ds"

definition has_minus :: "string \<Rightarrow> bool" where
  "has_minus s = (s \<noteq> [] \<and> hd s = CHR ''-'')"

definition unsigned_part :: "string \<Rightarrow> string" where
  "unsigned_part s = (if has_minus s then tl s else s)"

definition integer_digits :: "string \<Rightarrow> string" where
  "integer_digits s = takeWhile (\<lambda>c. c \<noteq> CHR ''.'') (unsigned_part s)"

definition decimal_digits :: "string \<Rightarrow> string" where
  "decimal_digits s = drop 1 (dropWhile (\<lambda>c. c \<noteq> CHR ''.'') (unsigned_part s))"

definition decimal_value :: "string \<Rightarrow> rat option" where
  "decimal_value s =
     (if integer_digits s \<noteq> [] \<and> list_all is_digit (integer_digits s) \<and>
         list_all is_digit (decimal_digits s)
      then Some ((if has_minus s then - 1 else 1) *
                 (of_nat (digits_value (integer_digits s)) +
                  of_nat (digits_value (decimal_digits s)) / 10 ^ length (decimal_digits s)))
      else None)"

text \<open>
  \<open>v\<close> is the decimal with \<open>p\<close> places nearest to \<open>q\<close>, a tie going to the even last
  digit: the rounding that \<^verbatim>\<open>%.pf\<close> is documented to perform.
\<close>

definition nearest_decimal :: "nat \<Rightarrow> rat \<Rightarrow> rat \<Rightarrow> bool" where
  "nearest_decimal p q v =
     (\<bar>v - q\<bar> * (2 * 10 ^ p) \<le> 1 \<and>
      (\<bar>v - q\<bar> * (2 * 10 ^ p) = 1 \<longrightarrow> even \<lfloor>\<bar>v\<bar> * 10 ^ p\<rfloor>))"

text \<open>
  The field \<open>s\<close> shows the number \<open>x\<close> with \<open>p\<close> decimal places: a finite value as an
  optional minus sign, an integer part without needless zeros, a point and exactly \<open>p\<close>
  digits that denote the nearest decimal; minus zero as zeros after a minus sign; an
  infinity or a NaN as its word.
\<close>

fun prints_as :: "nat \<Rightarrow> pyfloat \<Rightarrow> string \<Rightarrow> bool" where
  "prints_as p (Finite q) s =
     (has_minus s = (q < 0) \<and>
      length (decimal_digits s) = p \<and>
      (integer_digits s = ''0'' \<or> hd (integer_digits s) \<noteq> CHR ''0'') \<and>
      (case decimal_value s of None \<Rightarrow> False | Some v \<Rightarrow> nearest_decimal p q v))"
| "prints_as p NegZero s = (s = ''-0.'' @ replicate p (CHR ''0''))"
| "prints_as p PosInf s = (s = ''inf'')"
| "prints_as p NegInf s = (s = ''-inf'')"
| "prints_as p NaN s = (s = ''nan'')"

text \<open>A field that reads as a number: a decimal numeral, or the word for an infinity or a NaN.\<close>

definition is_numeral :: "string \<Rightarrow> bool" where
  "is_numeral s =
     (unsigned_part s = ''inf'' \<or> unsigned_part s = ''nan'' \<or> decimal_value s \<noteq> None)"

text \<open>
  The columns of a record after the placeholder as the specification lists them, each with
  its number of decimal places and the value it shows.
\<close>

definition record_columns ::
  "(pyfloat \<Rightarrow> pyfloat) \<Rightarrow> pyfloat \<Rightarrow> pyfloat \<Rightarrow> pyfloat \<Rightarrow> pyfloat \<Rightarrow> pyfloat \<Rightarrow> pyfloat
     \<Rightarrow> pyfloat option \<Rightarrow> (nat \<times> pyfloat) list" where
  "record_columns np_log10 teff logg metals am nm cm vm =
     (case vm of None \<Rightarrow> [] | Some v \<Rightarrow> [(3, np_log10 v)]) @
     [(3, cm), (3, nm), (3, am), (3, metals), (3, logg), (1, teff)]"

text \<open>
  A star whose values exercise the rounding and the special values: an effective temperature
  of 4999.96875, which rounds up into the next thousand, a surface gravity of 0.0625 and a
  carbon abundance of -0.1875, both halfway between two decimals, a metallicity of negative
  zero, an alpha abundance that is no number, an infinite nitrogen abundance, and a
  microturbulence of 10.
\<close>

definition edge_teff :: "pyfloat list" where
  "edge_teff = [Finite (159999 / 32)]"

definition edge_logg :: "pyfloat list" where
  "edge_logg = [Finite (1 / 16)]"

definition edge_metals :: "pyfloat list" where
  "edge_metals = [NegZero]"

definition edge_am :: "pyfloat list" where
  "edge_am = [NaN]"

definition edge_nm :: "pyfloat list" where
  "edge_nm = [PosInf]"

definition edge_cm :: "pyfloat list" where
  "edge_cm = [Finite (- 3 / 16)]"

definition edge_vm :: "pyfloat list" where
  "edge_vm = [Finite 10]"

text \<open>A file system with no files in which every path can be opened for writing.\<close>

definition empty_fs :: filesystem where
  "empty_fs = \<lparr>files = Map.empty, can_open_w = (\<lambda>path. True)\<rparr>"

section \<open>Lemmas on formatting and lines\<close>

lemma digit_char_mem: "d < 10 \<Longrightarrow> ''0123456789'' ! d \<in> set ''0123456789''"
  by (rule nth_mem) simp

lemma digits_nat_chars: "set (digits_nat n) \<subseteq> set ''0123456789''"
proof (induction n rule: digits_nat.induct)
  case (1 n)
  show ?case
  proof (cases "n < 10")
    case True
    then show ?thesis
      using digit_char_mem [of n] by (subst digits_nat.simps) simp
  next
    case False
    have "n mod 10 < 10" by simp
    then have "''0123456789'' ! (n mod 10) \<in> set ''0123456789''"
      by (rule digit_char_mem)
    with False 1 show ?thesis
      by (subst digits_nat.simps) simp
  qed
qed

lemma digits_nat_nonempty: "digits_nat n \<noteq> []"
  by (subst digits_nat.simps) simp

lemma digits_nat_notin: "c \<notin> set ''0123456789'' \<Longrightarrow> c \<notin> set (digits_nat n)"
  using digits_nat_chars [of n] by (rule contra_subsetD)

lemma fmt_i_notin:
  "c \<noteq> CHR ''-'' \<Longrightarrow> c \<notin> set ''0123456789'' \<Longrightarrow> c \<notin> set (fmt_i n)"
  by (simp add: fmt_i_def digits_nat_notin)

lemma fmt_i_no_newline: "CHR ''\<newline>'' \<notin> set (fmt_i n)"
  by (rule fmt_i_notin) simp_all

lemma fmt_i_no_quote: "CHR 0x27 \<notin> set (fmt_i n)"
  by (rule fmt_i_notin) simp_all

lemma lines_of_append:
  "CHR ''\<newline>'' \<notin> set l \<Longrightarrow> lines_of (l @ CHR ''\<newline>'' # rest) = l # lines_of rest"
  by (induction l) auto

lemma lines_of_terminated:
  "\<forall>l \<in> set ls. CHR ''\<newline>'' \<notin> set l \<Longrightarrow>
   lines_of (concat (map (\<lambda>l. l @ ''\<newline>'') ls)) = ls"
  by (induction ls) (simp_all add: lines_of_append)

lemma indvstr_fold_no_newline:
  "CHR ''\<newline>'' \<notin> set s \<Longrightarrow>
   CHR ''\<newline>'' \<notin> set (foldl (\<lambda>s ii. s @ '' '' @ fmt_i ii) s is)"
  by (induction "is" arbitrary: s) (simp_all add: fmt_i_no_newline)

lemma indvstr_no_newline: "CHR ''\<newline>'' \<notin> set (indvstr ndim)"
  unfolding indvstr_def by (rule indvstr_fold_no_newline) simp

lemma indvstr_fold_no_quote:
  "CHR 0x27 \<notin> set s \<Longrightarrow> CHR 0x27 \<notin> set (foldl (\<lambda>s ii. s @ '' '' @ fmt_i ii) s is)"
  by (induction "is" arbitrary: s) (simp_all add: fmt_i_no_quote)

lemma indvstr_no_quote: "CHR 0x27 \<notin> set (indvstr ndim)"
  unfolding indvstr_def by (rule indvstr_fold_no_quote) simp

lemma upto_1_6: "[1..(6::int)] = [1, 2, 3, 4, 5, 6]"
  by (simp add: upto.simps)

lemma indvstr_6: "indvstr 6 = ''INDV = 1 2 3 4 5 6''"
  by (simp add: indvstr_def upto_1_6 fmt_i_def digits_nat.simps)

lemma file_write_known:
  "files fs path = Some c \<Longrightarrow> file_write path fs w = fs\<lparr>files := (files fs)(path \<mapsto> c @ w)\<rparr>"
  by (simp add: file_write_def)

lemma file_write_fold:
  "files fs path = Some c \<Longrightarrow>
   foldl (file_write path) fs ws = fs\<lparr>files := (files fs)(path \<mapsto> c @ concat ws)\<rparr>"
proof (induction ws arbitrary: fs c)
  case Nil
  then show ?case by (simp add: fun_upd_idem)
next
  case (Cons w ws)
  let ?fs1 = "fs\<lparr>files := (files fs)(path \<mapsto> c @ w)\<rparr>"
  have step: "file_write path fs w = ?fs1"
    using Cons.prems by (rule file_write_known)
  have "files ?fs1 path = Some (c @ w)" by simp
  from Cons.IH [OF this] have ih: "foldl (file_write path) ?fs1 ws =
      ?fs1\<lparr>files := (files ?fs1)(path \<mapsto> (c @ w) @ concat ws)\<rparr>" .
  have m: "(files ?fs1)(path \<mapsto> (c @ w) @ concat ws) = (files fs)(path \<mapsto> c @ concat (w # ws))"
    by simp
  have "foldl (file_write path) fs (w # ws) = foldl (file_write path) ?fs1 ws"
    by (simp only: foldl_Cons step)
  also have "\<dots> = ?fs1\<lparr>files := (files fs)(path \<mapsto> c @ concat (w # ws))\<rparr>"
    by (simp only: ih m)
  also have "\<dots> = fs\<lparr>files := (files fs)(path \<mapsto> c @ concat (w # ws))\<rparr>"
    by simp
  finally show ?case .
qed

text \<open>
  When the file can be opened, the call returns \<^verbatim>\<open>None\<close> and the file holds the written
  texts one after the other, whatever it held before.
\<close>

lemma write_input_nml_result:
  assumes "can_open_w fs (path_join dir ''input.nml'')"
  shows "write_input_nml lib fs dir pfile offile ndim nov synthfile inter' f_format f_access =
           (Inr PyNone,
            fs\<lparr>files := (files fs)(path_join dir ''input.nml'' \<mapsto>
                 concat (input_nml_writes pfile offile ndim nov
                   (case synthfile of None \<Rightarrow> lib | Some s \<Rightarrow> s) inter' f_format f_access))\<rparr>)"
proof -
  let ?p = "path_join dir ''input.nml''"
  let ?fs0 = "fs\<lparr>files := (files fs)(?p \<mapsto> [])\<rparr>"
  have o: "open_w fs ?p = Inr ?fs0"
    using assms by (simp add: open_w_def)
  have "files ?fs0 ?p = Some []" by simp
  from file_write_fold [OF this] o show ?thesis
    by (simp add: write_input_nml_def Let_def)
qed

lemma lines_of_prefix:
  "\<forall>l \<in> set ls. CHR ''\<newline>'' \<notin> set l \<Longrightarrow>
   lines_of (concat (map (\<lambda>l. l @ ''\<newline>'') ls) @ rest) = ls @ lines_of rest"
  by (induction ls) (simp_all add: lines_of_append)

text \<open>The lines of the configuration file, for file names without a line break.\<close>

lemma lines_of_input_nml:
  assumes "CHR ''\<newline>'' \<notin> set synthfile" "CHR ''\<newline>'' \<notin> set pfile"
    "CHR ''\<newline>'' \<notin> set offile"
  shows "lines_of (concat (input_nml_writes pfile offile ndim nov synthfile inter' f_format f_access)) =
     [''&LISTA'',
      ''NDIM = '' @ fmt_i ndim,
      ''NOV = '' @ fmt_i nov,
      indvstr ndim,
      ''SYNTHFILE(1) = '' @ [CHR 0x27] @ synthfile @ [CHR 0x27],
      ''PFILE = '' @ [CHR 0x27] @ pfile @ [CHR 0x27],
      ''OFFILE = '' @ [CHR 0x27] @ offile @ [CHR 0x27],
      ''INTER = '' @ fmt_i inter',
      ''F_FORMAT = '' @ fmt_i f_format,
      ''F_ACCESS = '' @ fmt_i f_access,
      ''/'']" (is "lines_of ?text = ?ls")
proof -
  have t: "?text = concat (map (\<lambda>l. l @ ''\<newline>'') ?ls)"
    by (simp add: input_nml_writes_def)
  have "\<forall>l \<in> set ?ls. CHR ''\<newline>'' \<notin> set l"
    using assms by (simp add: fmt_i_no_newline indvstr_no_newline)
  then have "lines_of (concat (map (\<lambda>l. l @ ''\<newline>'') ?ls)) = ?ls"
    by (rule lines_of_terminated)
  with t show ?thesis by simp
qed

lemma fmt_i_small:
  "fmt_i 6 = ''6''" "fmt_i 0 = ''0''" "fmt_i 3 = ''3''" "fmt_i 1 = ''1''"
  by (simp_all add: fmt_i_def digits_nat.simps)

section \<open>The configuration file\<close>

text \<open>
  Claim C1, as amended. A call of \<^verbatim>\<open>write_input_nml\<close> with all defaults (\<^verbatim>\<open>ndim=6\<close>,
  \<^verbatim>\<open>nov=0\<close>, \<^verbatim>\<open>inter=3\<close>, \<^verbatim>\<open>f_format=1\<close>, \<^verbatim>\<open>f_access=1\<close>) and a supplied
  \<^verbatim>\<open>synthfile\<close>, in a directory where the file can be opened and with file names free of
  line breaks, returns \<^verbatim>\<open>None\<close> and leaves at \<^verbatim>\<open><dir>/input.nml\<close> a file of exactly
  eleven lines in the fixed order: open marker, NDIM, NOV, INDV (the integers 1 to 6),
  SYNTHFILE, PFILE, OFFILE, INTER, F_FORMAT, F_ACCESS, close marker.
\<close>

theorem write_input_nml_default_lines:
  assumes "can_open_w fs (path_join dir ''input.nml'')"
    and "CHR ''\<newline>'' \<notin> set synthfile" "CHR ''\<newline>'' \<notin> set pfile"
    and "CHR ''\<newline>'' \<notin> set offile"
  shows "fst (write_input_nml lib fs dir pfile offile 6 0 (Some synthfile) 3 1 1) = Inr PyNone \<and>
    read_lines (snd (write_input_nml lib fs dir pfile offile 6 0 (Some synthfile) 3 1 1))
        (path_join dir ''input.nml'') =
      Some [''&LISTA'',
            ''NDIM = 6'',
            ''NOV = 0'',
            ''INDV = 1 2 3 4 5 6'',
            ''SYNTHFILE(1) = '' @ [CHR 0x27] @ synthfile @ [CHR 0x27],
            ''PFILE = '' @ [CHR 0x27] @ pfile @ [CHR 0x27],
            ''OFFILE = '' @ [CHR 0x27] @ offile @ [CHR 0x27],
            ''INTER = 3'',
            ''F_FORMAT = 1'',
            ''F_ACCESS = 1'',
            ''/'']"
proof -
  have l: "lines_of (concat (input_nml_writes pfile offile 6 0 synthfile 3 1 1)) =
      [''&LISTA'', ''NDIM = 6'', ''NOV = 0'', ''INDV = 1 2 3 4 5 6'',
       ''SYNTHFILE(1) = '' @ [CHR 0x27] @ synthfile @ [CHR 0x27],
       ''PFILE = '' @ [CHR 0x27] @ pfile @ [CHR 0x27],
       ''OFFILE = '' @ [CHR 0x27] @ offile @ [CHR 0x27],
       ''INTER = 3'', ''F_FORMAT = 1'', ''F_ACCESS = 1'', ''/'']"
    by (simp add: lines_of_input_nml [OF assms(2-4)] indvstr_6 fmt_i_small)
  show ?thesis
    by (simp add: write_input_nml_result [OF assms(1)] read_lines_def l)
qed

text \<open>The theorem at a concrete call in the directory \<^verbatim>\<open>run\<close> of an empty file system.\<close>

theorem write_input_nml_default_lines_witness:
  "can_open_w empty_fs (path_join ''run'' ''input.nml'') \<and>
   CHR ''\<newline>'' \<notin> set ''grid.hdr'' \<and> CHR ''\<newline>'' \<notin> set ''in.ipf'' \<and>
   CHR ''\<newline>'' \<notin> set ''out.dat'' \<and>
   fst (write_input_nml ''lib.hdr'' empty_fs ''run'' ''in.ipf'' ''out.dat'' 6 0 (Some ''grid.hdr'') 3 1 1)
     = Inr PyNone \<and>
   read_lines (snd (write_input_nml ''lib.hdr'' empty_fs ''run'' ''in.ipf'' ''out.dat'' 6 0
        (Some ''grid.hdr'') 3 1 1)) ''run/input.nml'' =
      Some [''&LISTA'', ''NDIM = 6'', ''NOV = 0'', ''INDV = 1 2 3 4 5 6'',
            ''SYNTHFILE(1) = '' @ [CHR 0x27] @ ''grid.hdr'' @ [CHR 0x27],
            ''PFILE = '' @ [CHR 0x27] @ ''in.ipf'' @ [CHR 0x27],
            ''OFFILE = '' @ [CHR 0x27] @ ''out.dat'' @ [CHR 0x27],
            ''INTER = 3'', ''F_FORMAT = 1'', ''F_ACCESS = 1'', ''/'']"
proof -
  have p: "path_join ''run'' ''input.nml'' = ''run/input.nml''"
    by (simp add: path_join_def)
  have o: "can_open_w empty_fs (path_join ''run'' ''input.nml'')"
    by (simp add: empty_fs_def)
  have n: "CHR ''\<newline>'' \<notin> set ''grid.hdr''" "CHR ''\<newline>'' \<notin> set ''in.ipf''"
    "CHR ''\<newline>'' \<notin> set ''out.dat''"
    by simp_all
  from write_input_nml_default_lines [OF o n, of "''lib.hdr''"] o n show ?thesis
    by (simp only: p simp_thms)
qed

text \<open>
  Claim C1 as stated gives the file nine lines. The same concrete call writes eleven lines,
  not nine.
\<close>

theorem write_input_nml_nine_lines_counterexample:
  "map_option length
     (read_lines (snd (write_input_nml ''lib.hdr'' empty_fs ''run'' ''in.ipf'' ''out.dat'' 6 0
        (Some ''grid.hdr'') 3 1 1)) ''run/input.nml'') = Some 11 \<and>
   map_option length
     (read_lines (snd (write_input_nml ''lib.hdr'' empty_fs ''run'' ''in.ipf'' ''out.dat'' 6 0
        (Some ''grid.hdr'') 3 1 1)) ''run/input.nml'') \<noteq> Some 9"
proof -
  have p: "path_join ''run'' ''input.nml'' = ''run/input.nml''"
    by (simp add: path_join_def)
  have o: "can_open_w empty_fs (path_join ''run'' ''input.nml'')"
    by (simp add: empty_fs_def)
  have n: "CHR ''\<newline>'' \<notin> set ''grid.hdr''" "CHR ''\<newline>'' \<notin> set ''in.ipf''"
    "CHR ''\<newline>'' \<notin> set ''out.dat''"
    by simp_all
  have r: "read_lines (snd (write_input_nml ''lib.hdr'' empty_fs ''run'' ''in.ipf'' ''out.dat'' 6 0
        (Some ''grid.hdr'') 3 1 1)) ''run/input.nml'' =
      Some (lines_of (concat (input_nml_writes ''in.ipf'' ''out.dat'' 6 0 ''grid.hdr'' 3 1 1)))"
    using write_input_nml_result [OF o, of "''lib.hdr''" "''in.ipf''" "''out.dat''" 6 0
        "Some ''grid.hdr''" 3 1 1]
    by (simp add: p read_lines_def)
  show ?thesis
    by (simp add: r lines_of_input_nml [OF n])
qed

lemma input_nml_writes_head:
  "concat (input_nml_writes pfile offile ndim nov synthfile inter' f_format f_access) =
   concat (map (\<lambda>l. l @ ''\<newline>'')
     [''&LISTA'', ''NDIM = '' @ fmt_i ndim, ''NOV = '' @ fmt_i nov, indvstr ndim]) @
   concat (drop 4 (input_nml_writes pfile offile ndim nov synthfile inter' f_format f_access))"
  by (simp add: input_nml_writes_def)

lemma lines_of_input_nml_head:
  "\<exists>rest. lines_of (concat (input_nml_writes pfile offile ndim nov synthfile inter' f_format f_access)) =
     [''&LISTA'', ''NDIM = '' @ fmt_i ndim, ''NOV = '' @ fmt_i nov, indvstr ndim] @ rest"
proof -
  have "\<forall>l \<in> set [''&LISTA'', ''NDIM = '' @ fmt_i ndim, ''NOV = '' @ fmt_i nov, indvstr ndim].
      CHR ''\<newline>'' \<notin> set l"
    by (simp add: fmt_i_no_newline indvstr_no_newline)
  from lines_of_prefix [OF this] show ?thesis
    by (subst input_nml_writes_head) blast
qed

text \<open>
  Claim C7. The call \<^verbatim>\<open>write_input_nml(dir, "in.ipf", "out.dat", ndim=6, nov=0)\<close>, with the
  model grid header taken from the path service, writes a file whose fourth line, the INDV
  line, is exactly \<^verbatim>\<open>INDV = 1 2 3 4 5 6\<close>, provided the file can be opened.
\<close>

theorem write_input_nml_indv_line:
  assumes "can_open_w fs (path_join dir ''input.nml'')"
  shows "map_option (\<lambda>ls. ls ! 3)
      (read_lines (snd (write_input_nml lib fs dir ''in.ipf'' ''out.dat'' 6 0 None 3 1 1))
        (path_join dir ''input.nml'')) = Some ''INDV = 1 2 3 4 5 6''"
proof -
  obtain rest where
    "lines_of (concat (input_nml_writes ''in.ipf'' ''out.dat'' 6 0 lib 3 1 1)) =
       [''&LISTA'', ''NDIM = '' @ fmt_i 6, ''NOV = '' @ fmt_i 0, indvstr 6] @ rest"
    using lines_of_input_nml_head by blast
  then show ?thesis
    by (simp add: write_input_nml_result [OF assms] read_lines_def indvstr_6)
qed

text \<open>The theorem at a call in the directory \<^verbatim>\<open>run\<close> of an empty file system.\<close>

theorem write_input_nml_indv_line_witness:
  "can_open_w empty_fs (path_join ''run'' ''input.nml'') \<and>
   map_option (\<lambda>ls. ls ! 3)
      (read_lines (snd (write_input_nml ''lib.hdr'' empty_fs ''run'' ''in.ipf'' ''out.dat'' 6 0 None 3 1 1))
        ''run/input.nml'') = Some ''INDV = 1 2 3 4 5 6''"
proof -
  have p: "path_join ''run'' ''input.nml'' = ''run/input.nml''"
    by (simp add: path_join_def)
  have o: "can_open_w empty_fs (path_join ''run'' ''input.nml'')"
    by (simp add: empty_fs_def)
  from write_input_nml_indv_line [OF o, of "''lib.hdr''"] o show ?thesis
    by (simp only: p simp_thms)
qed

text \<open>
  Claim C10. In the file written by \<^verbatim>\<open>write_input_nml\<close> the three string-valued
  directives carry their values between single quotes, the key of the model grid header is
  literally \<^verbatim>\<open>SYNTHFILE(1)\<close>, and the lines of the numeric directives hold no quote.
\<close>

theorem write_input_nml_quoting:
  assumes "can_open_w fs (path_join dir ''input.nml'')"
    and "CHR ''\<newline>'' \<notin> set (case synthfile of None \<Rightarrow> lib | Some s \<Rightarrow> s)"
    and "CHR ''\<newline>'' \<notin> set pfile" "CHR ''\<newline>'' \<notin> set offile"
  shows "read_lines
      (snd (write_input_nml lib fs dir pfile offile ndim nov synthfile inter' f_format f_access))
      (path_join dir ''input.nml'') =
      Some [''&LISTA'',
            ''NDIM = '' @ fmt_i ndim,
            ''NOV = '' @ fmt_i nov,
            indvstr ndim,
            ''SYNTHFILE(1) = '' @ [CHR 0x27] @ (case synthfile of None \<Rightarrow> lib | Some s \<Rightarrow> s)
               @ [CHR 0x27],
            ''PFILE = '' @ [CHR 0x27] @ pfile @ [CHR 0x27],
            ''OFFILE = '' @ [CHR 0x27] @ offile @ [CHR 0x27],
            ''INTER = '' @ fmt_i inter',
            ''F_FORMAT = '' @ fmt_i f_format,
            ''F_ACCESS = '' @ fmt_i f_access,
            ''/''] \<and>
    CHR 0x27 \<notin> set (''NDIM = '' @ fmt_i ndim) \<and>
    CHR 0x27 \<notin> set (''NOV = '' @ fmt_i nov) \<and>
    CHR 0x27 \<notin> set (indvstr ndim) \<and>
    CHR 0x27 \<notin> set (''INTER = '' @ fmt_i inter') \<and>
    CHR 0x27 \<notin> set (''F_FORMAT = '' @ fmt_i f_format) \<and>
    CHR 0x27 \<notin> set (''F_ACCESS = '' @ fmt_i f_access)"
proof -
  have "read_lines
      (snd (write_input_nml lib fs dir pfile offile ndim nov synthfile inter' f_format f_access))
      (path_join dir ''input.nml'') =
      Some (lines_of (concat (input_nml_writes pfile offile ndim nov
        (case synthfile of None \<Rightarrow> lib | Some s \<Rightarrow> s) inter' f_format f_access)))"
    by (simp add: write_input_nml_result [OF assms(1)] read_lines_def)
  then show ?thesis
    by (simp add: lines_of_input_nml [OF assms(2-4)] fmt_i_no_quote indvstr_no_quote)
qed

text \<open>The theorem at a call with \<^verbatim>\<open>ndim=2\<close> and the default model grid header.\<close>

theorem write_input_nml_quoting_witness:
  "can_open_w empty_fs (path_join ''run'' ''input.nml'') \<and>
   CHR ''\<newline>'' \<notin> set (case None of None \<Rightarrow> ''lib.hdr'' | Some s \<Rightarrow> s) \<and>
   CHR ''\<newline>'' \<notin> set ''in.ipf'' \<and> CHR ''\<newline>'' \<notin> set ''out.dat'' \<and>
   read_lines
      (snd (write_input_nml ''lib.hdr'' empty_fs ''run'' ''in.ipf'' ''out.dat'' 2 1 None 1 0 0))
      ''run/input.nml'' =
      Some [''&LISTA'', ''NDIM = 2'', ''NOV = 1'', ''INDV = 1 2'',
            ''SYNTHFILE(1) = '' @ [CHR 0x27] @ ''lib.hdr'' @ [CHR 0x27],
            ''PFILE = '' @ [CHR 0x27] @ ''in.ipf'' @ [CHR 0x27],
            ''OFFILE = '' @ [CHR 0x27] @ ''out.dat'' @ [CHR 0x27],
            ''INTER = 1'', ''F_FORMAT = 0'', ''F_ACCESS = 0'', ''/''] \<and>
   CHR 0x27 \<notin> set ''NDIM = 2'' \<and> CHR 0x27 \<notin> set ''INDV = 1 2''"
proof -
  have p: "path_join ''run'' ''input.nml'' = ''run/input.nml''"
    by (simp add: path_join_def)
  have o: "can_open_w empty_fs (path_join ''run'' ''input.nml'')"
    by (simp add: empty_fs_def)
  have n: "CHR ''\<newline>'' \<notin> set (case None of None \<Rightarrow> ''lib.hdr'' | Some s \<Rightarrow> s)"
    "CHR ''\<newline>'' \<notin> set ''in.ipf''" "CHR ''\<newline>'' \<notin> set ''out.dat''"
    by simp_all
  have f: "fmt_i 2 = ''2''" "fmt_i 1 = ''1''" "fmt_i 0 = ''0''"
    by (simp_all add: fmt_i_def digits_nat.simps)
  have u: "[1..(2::int)] = [1, 2]" by (simp add: upto.simps)
  have i: "indvstr 2 = ''INDV = 1 2''"
    by (simp add: indvstr_def u f)
  from write_input_nml_quoting [OF o n, of 2 1 1 0 0] o show ?thesis
    by (simp add: p f i)
qed

section \<open>The process runner\<close>

text \<open>
  Claim C4. \<^verbatim>\<open>run_ferre\<close> raises exactly when the external program fails. When the program
  runs and exits with a status other than zero, the error is the generic exception whose
  message names the working directory and is the same whatever the program printed; when
  the program cannot be started, the \<^verbatim>\<open>OSError\<close> of the launch is raised as it is, which
  is never the generic exception; on success the result is \<^verbatim>\<open>None\<close>.
\<close>

theorem run_ferre_outcomes:
  "(launch [''ferre''] dir (\<not> verbose) = Exited 0 out err \<longrightarrow>
      run_ferre launch dir verbose = Inr PyNone) \<and>
   (launch [''ferre''] dir (\<not> verbose) = Exited returncode out err \<and> returncode \<noteq> 0 \<longrightarrow>
      run_ferre launch dir verbose =
        Inl (PyException (''Running FERRE instance in directory '' @ dir @ '' failed ...''))) \<and>
   (launch [''ferre''] dir (\<not> verbose) = CannotStart msg \<longrightarrow>
      run_ferre launch dir verbose = Inl (OSError msg) \<and>
      (\<forall>m. run_ferre launch dir verbose \<noteq> Inl (PyException m))) \<and>
   ((\<exists>e. run_ferre launch dir verbose = Inl e) \<longleftrightarrow>
      (\<forall>out err. launch [''ferre''] dir (\<not> verbose) \<noteq> Exited 0 out err))"
  by (cases "launch [''ferre''] dir (\<not> verbose)") (simp_all add: run_ferre_def)

text \<open>The theorem in the three environments, for the directory \<^verbatim>\<open>run\<close>.\<close>

theorem run_ferre_outcomes_witness:
  "ferre_succeeds [''ferre''] ''run'' (\<not> False) = Exited 0 ''done'' '''' \<and>
   run_ferre ferre_succeeds ''run'' False = Inr PyNone \<and>
   ferre_fails [''ferre''] ''run'' (\<not> False) = Exited 1 '''' ''cannot read input.nml'' \<and> (1::int) \<noteq> 0 \<and>
   run_ferre ferre_fails ''run'' False =
     Inl (PyException ''Running FERRE instance in directory run failed ...'') \<and>
   ferre_missing [''ferre''] ''run'' (\<not> False) = CannotStart ''No such file or directory'' \<and>
   run_ferre ferre_missing ''run'' False = Inl (OSError ''No such file or directory'') \<and>
   (\<exists>e. run_ferre ferre_fails ''run'' False = Inl e)"
  using run_ferre_outcomes [of ferre_succeeds "''run''" False "''done''" "''''" 0 "''''"]
    run_ferre_outcomes [of ferre_fails "''run''" False "''''" "''cannot read input.nml''" 1
      "''''"]
    run_ferre_outcomes [of ferre_missing "''run''" False "''''" "''''" 1
      "''No such file or directory''"]
  by (simp add: ferre_succeeds_def ferre_fails_def ferre_missing_def)

section \<open>The decorator\<close>

lemma scalar_wrapper_array_mode:
  assumes "2 \<le> length args" "\<not> shape_is_unit (args ! 1)"
  shows "scalar_wrapper func args kwargs s = func args kwargs s"
proof (cases "func args kwargs s")
  case (Pair r s')
  with assms show ?thesis
    by (cases r) (simp_all add: scalar_wrapper_def)
qed

lemma scalar_wrapper_scalar_mode:
  assumes "2 \<le> length args" "shape_is_unit (args ! 1)"
  shows "scalar_wrapper func args kwargs s =
    (case func (scalar_args args) (scalar_kwargs kwargs) s of
       (Inl e, s') \<Rightarrow> (Inl e, s')
     | (Inr result, s') \<Rightarrow>
         if result = PyNone then (Inr result, s') else (getitem_0_all result, s'))"
  using assms by (simp add: scalar_wrapper_def split: prod.splits sum.splits)

lemma wrap_fold:
  "foldl (\<lambda>newargs ii. newargs @ [Arr [f ii]]) init is = init @ map (\<lambda>ii. Arr [f ii]) is"
  by (induction "is" arbitrary: init) simp_all

lemma scalar_args_Cons: "scalar_args (ctx # ps) = ctx # map (\<lambda>p. Arr [p]) ps"
proof -
  have "map (\<lambda>ii. Arr [(ctx # ps) ! (ii + 1)]) [0..<length ps] = map (\<lambda>p. Arr [p]) ps"
    by (simp add: map_equality_iff)
  then show ?thesis
    by (simp add: scalar_args_def wrap_fold)
qed

text \<open>
  Claim C6. When the second positional argument is an array, not a zero-dimensional value,
  the decorated function is the undecorated one: the wrapped function receives the
  arguments unchanged and its result, value or error, comes back unchanged.
\<close>

theorem scalar_wrapper_array_passthrough:
  "scalar_wrapper func (ctx # Arr xs # rest) kwargs s = func (ctx # Arr xs # rest) kwargs s"
proof (cases "func (ctx # Arr xs # rest) kwargs s")
  case (Pair r s')
  then show ?thesis
    by (cases r) (simp_all add: scalar_wrapper_def)
qed

section \<open>The record writer on arrays\<close>

lemma fmt_fixed_notin:
  assumes "c \<notin> set ''0123456789''" "c \<noteq> CHR ''.''"
  shows "c \<notin> set (fmt_fixed p m)"
proof -
  have z: "c \<noteq> CHR ''0''" using assms(1) by auto
  show ?thesis
    using assms(2) z by (simp add: fmt_fixed_def Let_def digits_nat_notin [OF assms(1)])
qed

lemma fmt_f_notin:
  assumes "c \<notin> set ''0123456789''" "c \<notin> set ''.-infa''"
  shows "c \<notin> set (fmt_f p x)"
proof -
  have d: "c \<noteq> CHR ''.''" using assms(2) by simp
  from assms(2) fmt_fixed_notin [OF assms(1) d] show ?thesis
    by (cases x) simp_all
qed


lemma fmt_f_no_newline: "CHR ''\<newline>'' \<notin> set (fmt_f p x)"
  by (rule fmt_f_notin) simp_all

lemma split_on_append:
  "c \<notin> set w \<Longrightarrow> split_on c (w @ c # rest) = w # split_on c rest"
  by (induction w) auto

lemma split_on_single: "c \<notin> set w \<Longrightarrow> split_on c w = [w]"
  by (induction w) auto

lemma split_on_fields:
  "\<forall>w \<in> set ws. c \<notin> set w \<Longrightarrow> c \<notin> set w' \<Longrightarrow>
   split_on c (concat (map (\<lambda>w. w @ [c]) ws) @ w') = ws @ [w']"
  by (induction ws) (simp_all add: split_on_append split_on_single)

lemma bind_params_six:
  "bind_params [d, t, g, m, a, n, c] [] = Inr [d, t, g, m, a, n, c, PyNone]"
  by (simp add: bind_params_def param_names_def)

lemma bind_params_vm:
  "bind_params [d, t, g, m, a, n, c] [(''vm'', v)] = Inr [d, t, g, m, a, n, c, v]"
  by (simp add: bind_params_def param_names_def)

lemma ipf_loop_success:
  "\<forall>i \<in> set is. line i = Inr (f i) \<Longrightarrow> files fs path = Some c \<Longrightarrow>
   ipf_loop line path is fs =
     (Inr PyNone, fs\<lparr>files := (files fs)(path \<mapsto> c @ concat (map f is))\<rparr>)"
proof (induction "is" arbitrary: fs c)
  case Nil
  then show ?case by (simp add: fun_upd_idem)
next
  case (Cons i "is")
  let ?fs1 = "fs\<lparr>files := (files fs)(path \<mapsto> c @ f i)\<rparr>"
  have l: "line i = Inr (f i)" using Cons.prems(1) by simp
  have step: "file_write path fs (f i) = ?fs1"
    using Cons.prems(2) by (rule file_write_known)
  have r: "\<forall>j \<in> set is. line j = Inr (f j)" using Cons.prems(1) by simp
  have "files ?fs1 path = Some (c @ f i)" by simp
  from Cons.IH [OF r this] have ih: "ipf_loop line path is ?fs1 =
      (Inr PyNone, ?fs1\<lparr>files := (files ?fs1)(path \<mapsto> (c @ f i) @ concat (map f is))\<rparr>)" .
  have m: "(files ?fs1)(path \<mapsto> (c @ f i) @ concat (map f is)) =
      (files fs)(path \<mapsto> c @ concat (map f (i # is)))"
    by simp
  have "ipf_loop line path (i # is) fs = ipf_loop line path is ?fs1"
    by (simp add: l step)
  also have "\<dots> = (Inr PyNone, ?fs1\<lparr>files := (files fs)(path \<mapsto> c @ concat (map f (i # is)))\<rparr>)"
    by (simp only: ih m)
  also have "\<dots> = (Inr PyNone, fs\<lparr>files := (files fs)(path \<mapsto> c @ concat (map f (i # is)))\<rparr>)"
    by simp
  finally show ?case .
qed

lemma ipf_loop_failure:
  "\<forall>i \<in> set pre. line i = Inr (f i) \<Longrightarrow> line k = Inl e \<Longrightarrow> files fs path = Some c \<Longrightarrow>
   ipf_loop line path (pre @ k # post) fs =
     (Inl e, fs\<lparr>files := (files fs)(path \<mapsto> c @ concat (map f pre))\<rparr>)"
proof (induction pre arbitrary: fs c)
  case Nil
  then show ?case by (simp add: fun_upd_idem)
next
  case (Cons i pre)
  let ?fs1 = "fs\<lparr>files := (files fs)(path \<mapsto> c @ f i)\<rparr>"
  have l: "line i = Inr (f i)" using Cons.prems(1) by simp
  have step: "file_write path fs (f i) = ?fs1"
    using Cons.prems(3) by (rule file_write_known)
  have r: "\<forall>j \<in> set pre. line j = Inr (f j)" using Cons.prems(1) by simp
  have "files ?fs1 path = Some (c @ f i)" by simp
  from Cons.IH [OF r Cons.prems(2) this] have ih: "ipf_loop line path (pre @ k # post) ?fs1 =
      (Inl e, ?fs1\<lparr>files := (files ?fs1)(path \<mapsto> (c @ f i) @ concat (map f pre))\<rparr>)" .
  have m: "(files ?fs1)(path \<mapsto> (c @ f i) @ concat (map f pre)) =
      (files fs)(path \<mapsto> c @ concat (map f (i # pre)))"
    by simp
  have "ipf_loop line path ((i # pre) @ k # post) fs = ipf_loop line path (pre @ k # post) ?fs1"
    by (simp add: l step)
  also have "\<dots> = (Inl e, ?fs1\<lparr>files := (files fs)(path \<mapsto> c @ concat (map f (i # pre)))\<rparr>)"
    by (simp only: ih m)
  also have "\<dots> = (Inl e, fs\<lparr>files := (files fs)(path \<mapsto> c @ concat (map f (i # pre)))\<rparr>)"
    by simp
  finally show ?case .
qed

lemma ipf_line_ok:
  assumes "i < length ts" "i < length gs" "i < length ms" "i < length as" "i < length ns"
    "i < length cs" "\<forall>vs. vm = Some vs \<longrightarrow> i < length vs"
  shows "ipf_line np_log10 (Arr (map Num ts)) (Arr (map Num gs)) (Arr (map Num ms))
      (Arr (map Num as)) (Arr (map Num ns)) (Arr (map Num cs)) (vm_val vm) i =
    Inr (record_line np_log10 ts gs ms as ns cs vm i @ ''\<newline>'')"
  using assms
  by (cases vm)
    (simp_all add: ipf_line_def bind_result_def vm_val_def record_line_def record_fields_def)

lemma ipf_line_short:
  assumes "length ts \<le> i \<or> length gs \<le> i \<or> length ms \<le> i \<or> length as \<le> i \<or>
    length ns \<le> i \<or> length cs \<le> i \<or> (\<exists>vs. vm = Some vs \<and> length vs \<le> i)"
  shows "ipf_line np_log10 (Arr (map Num ts)) (Arr (map Num gs)) (Arr (map Num ms))
      (Arr (map Num as)) (Arr (map Num ns)) (Arr (map Num cs)) (vm_val vm) i = Inl IndexError"
proof (cases vm)
  case None
  with assms show ?thesis
    by (simp add: ipf_line_def bind_result_def vm_val_def) (metis not_less)
next
  case (Some vs)
  with assms show ?thesis
    by (simp add: ipf_line_def bind_result_def vm_val_def) (metis not_less)
qed

lemma upt_split: "k < n \<Longrightarrow> [0..<n] = [0..<k] @ k # [Suc k..<n]"
proof -
  assume k: "k < n"
  then have "[0..<n] = [0..<k + (n - k)]" by simp
  also have "\<dots> = [0..<k] @ [k..<k + (n - k)]" by (rule upt_add_eq_append) simp
  also have "[k..<k + (n - k)] = k # [Suc k..<n]" using k by (simp add: upt_conv_Cons)
  finally show ?thesis .
qed

lemma bind_params_arrays:
  "bind_params (ipf_args dir ts gs ms as ns cs) (vm_kwargs vm) =
     Inr (ipf_args dir ts gs ms as ns cs @ [vm_val vm])"
  by (cases vm) (simp_all add: ipf_args_def vm_kwargs_def vm_val_def bind_params_six bind_params_vm)

lemma undecorated_arrays:
  assumes "can_open_w fs (path_join dir ''input.ipf'')"
  shows "write_interpolate_ipf_undecorated np_log10 (ipf_args dir ts gs ms as ns cs) (vm_kwargs vm) fs =
     ipf_loop
       (ipf_line np_log10 (Arr (map Num ts)) (Arr (map Num gs)) (Arr (map Num ms))
          (Arr (map Num as)) (Arr (map Num ns)) (Arr (map Num cs)) (vm_val vm))
       (path_join dir ''input.ipf'') [0..<length ts]
       (fs\<lparr>files := (files fs)(path_join dir ''input.ipf'' \<mapsto> [])\<rparr>)"
proof -
  have o: "open_w fs (path_join dir ''input.ipf'') =
      Inr (fs\<lparr>files := (files fs)(path_join dir ''input.ipf'' \<mapsto> [])\<rparr>)"
    using assms by (simp add: open_w_def)
  have b: "bind_params (ipf_args dir ts gs ms as ns cs) (vm_kwargs vm) =
      Inr [Str dir, Arr (map Num ts), Arr (map Num gs), Arr (map Num ms), Arr (map Num as),
           Arr (map Num ns), Arr (map Num cs), vm_val vm]"
    by (simp add: bind_params_arrays) (simp add: ipf_args_def)
  show ?thesis
    by (simp add: write_interpolate_ipf_undecorated_def b o)
qed

lemma decorated_arrays:
  "write_interpolate_ipf np_log10 (ipf_args dir ts gs ms as ns cs) kwargs fs =
   write_interpolate_ipf_undecorated np_log10 (ipf_args dir ts gs ms as ns cs) kwargs fs"
  unfolding write_interpolate_ipf_def
  by (rule scalar_wrapper_array_mode) (simp_all add: ipf_args_def)

text \<open>
  With every other array at least as long as the effective temperatures, the call returns
  \<^verbatim>\<open>None\<close> and the file holds one line per effective temperature.
\<close>

lemma write_interpolate_ipf_success:
  assumes "can_open_w fs (path_join dir ''input.ipf'')"
    and "length ts \<le> shortest_other gs ms as ns cs vm"
  shows "write_interpolate_ipf np_log10 (ipf_args dir ts gs ms as ns cs) (vm_kwargs vm) fs =
     (Inr PyNone,
      fs\<lparr>files := (files fs)(path_join dir ''input.ipf'' \<mapsto>
        concat (map (\<lambda>i. record_line np_log10 ts gs ms as ns cs vm i @ ''\<newline>'')
          [0..<length ts]))\<rparr>)"
proof -
  let ?p = "path_join dir ''input.ipf''"
  let ?fs0 = "fs\<lparr>files := (files fs)(?p \<mapsto> [])\<rparr>"
  let ?line = "ipf_line np_log10 (Arr (map Num ts)) (Arr (map Num gs)) (Arr (map Num ms))
          (Arr (map Num as)) (Arr (map Num ns)) (Arr (map Num cs)) (vm_val vm)"
  let ?f = "\<lambda>i. record_line np_log10 ts gs ms as ns cs vm i @ ''\<newline>''"
  from assms(2) have len: "length ts \<le> length gs" "length ts \<le> length ms"
    "length ts \<le> length as" "length ts \<le> length ns" "length ts \<le> length cs"
    "\<forall>vs. vm = Some vs \<longrightarrow> length ts \<le> length vs"
    by (auto simp: shortest_other_def split: option.splits)
  have "\<forall>i \<in> set [0..<length ts]. ?line i = Inr (?f i)"
  proof
    fix i assume "i \<in> set [0..<length ts]"
    then have i: "i < length ts" by simp
    with len show "?line i = Inr (?f i)"
      by (intro ipf_line_ok) auto
  qed
  moreover have "files ?fs0 ?p = Some []" by simp
  ultimately have "ipf_loop ?line ?p [0..<length ts] ?fs0 =
      (Inr PyNone, ?fs0\<lparr>files := (files ?fs0)(?p \<mapsto> [] @ concat (map ?f [0..<length ts]))\<rparr>)"
    by (rule ipf_loop_success)
  also have "\<dots> = (Inr PyNone, fs\<lparr>files := (files fs)(?p \<mapsto> concat (map ?f [0..<length ts]))\<rparr>)"
    by simp
  finally show ?thesis
    by (simp only: decorated_arrays undecorated_arrays [OF assms(1)])
qed

text \<open>
  With some other array shorter than the effective temperatures, the call raises
  \<^verbatim>\<open>IndexError\<close> at the first position the shortest array lacks, and the file keeps the
  lines written before.
\<close>

lemma write_interpolate_ipf_short:
  assumes "can_open_w fs (path_join dir ''input.ipf'')"
    and "shortest_other gs ms as ns cs vm < length ts"
  shows "write_interpolate_ipf np_log10 (ipf_args dir ts gs ms as ns cs) (vm_kwargs vm) fs =
     (Inl IndexError,
      fs\<lparr>files := (files fs)(path_join dir ''input.ipf'' \<mapsto>
        concat (map (\<lambda>i. record_line np_log10 ts gs ms as ns cs vm i @ ''\<newline>'')
          [0..<shortest_other gs ms as ns cs vm]))\<rparr>)"
proof -
  let ?p = "path_join dir ''input.ipf''"
  let ?k = "shortest_other gs ms as ns cs vm"
  let ?fs0 = "fs\<lparr>files := (files fs)(?p \<mapsto> [])\<rparr>"
  let ?line = "ipf_line np_log10 (Arr (map Num ts)) (Arr (map Num gs)) (Arr (map Num ms))
          (Arr (map Num as)) (Arr (map Num ns)) (Arr (map Num cs)) (vm_val vm)"
  let ?f = "\<lambda>i. record_line np_log10 ts gs ms as ns cs vm i @ ''\<newline>''"
  have len: "?k \<le> length gs" "?k \<le> length ms" "?k \<le> length as" "?k \<le> length ns"
    "?k \<le> length cs" "\<forall>vs. vm = Some vs \<longrightarrow> ?k \<le> length vs"
    by (auto simp: shortest_other_def split: option.splits)
  have short: "length ts \<le> ?k \<or> length gs \<le> ?k \<or> length ms \<le> ?k \<or> length as \<le> ?k \<or>
    length ns \<le> ?k \<or> length cs \<le> ?k \<or> (\<exists>vs. vm = Some vs \<and> length vs \<le> ?k)"
    by (cases vm) (auto simp: shortest_other_def min_def)
  have pre: "\<forall>i \<in> set [0..<?k]. ?line i = Inr (?f i)"
  proof
    fix i assume "i \<in> set [0..<?k]"
    then have i: "i < ?k" by simp
    with len assms(2) show "?line i = Inr (?f i)"
      by (intro ipf_line_ok) auto
  qed
  have at: "?line ?k = Inl IndexError"
    using short by (rule ipf_line_short)
  have split: "[0..<length ts] = [0..<?k] @ ?k # [Suc ?k..<length ts]"
    using assms(2) by (rule upt_split)
  have "files ?fs0 ?p = Some []" by simp
  with pre at have "ipf_loop ?line ?p ([0..<?k] @ ?k # [Suc ?k..<length ts]) ?fs0 =
      (Inl IndexError, ?fs0\<lparr>files := (files ?fs0)(?p \<mapsto> [] @ concat (map ?f [0..<?k]))\<rparr>)"
    by (rule ipf_loop_failure)
  also have "\<dots> = (Inl IndexError, fs\<lparr>files := (files fs)(?p \<mapsto> concat (map ?f [0..<?k]))\<rparr>)"
    by simp
  finally show ?thesis
    by (simp only: decorated_arrays undecorated_arrays [OF assms(1)] split)
qed



lemma join_with_space_notin:
  "c \<noteq> CHR '' '' \<Longrightarrow> \<forall>w \<in> set ws. c \<notin> set w \<Longrightarrow> c \<notin> set (join_with_space ws)"
  by (induction ws rule: join_with_space.induct) simp_all



lemma record_fields_no_newline:
  "\<forall>w \<in> set (record_fields np_log10 t g m a n c v). CHR ''\<newline>'' \<notin> set w"
  by (cases v) (simp_all add: record_fields_def fmt_f_no_newline)

lemma record_line_no_newline:
  "CHR ''\<newline>'' \<notin> set (record_line np_log10 ts gs ms as ns cs vm i)"
  unfolding record_line_def
  by (rule join_with_space_notin) (simp_all add: record_fields_no_newline)


lemma lines_of_records:
  "lines_of (concat (map (\<lambda>i. record_line np_log10 ts gs ms as ns cs vm i @ ''\<newline>'') is)) =
   map (record_line np_log10 ts gs ms as ns cs vm) is"
proof -
  have "concat (map (\<lambda>i. record_line np_log10 ts gs ms as ns cs vm i @ ''\<newline>'') is) =
      concat (map (\<lambda>l. l @ ''\<newline>'') (map (record_line np_log10 ts gs ms as ns cs vm) is))"
    by (simp add: comp_def)
  moreover have "\<forall>l \<in> set (map (record_line np_log10 ts gs ms as ns cs vm) is).
      CHR ''\<newline>'' \<notin> set l"
    by (simp add: record_line_no_newline)
  ultimately show ?thesis
    by (simp only: lines_of_terminated)
qed

lemma ipf_loop_returns_none:
  "ipf_loop line path is fs = (Inr r, fs') \<Longrightarrow> r = PyNone"
  by (induction "is" arbitrary: fs) (auto split: sum.splits)

lemma undecorated_returns_none:
  "write_interpolate_ipf_undecorated np_log10 args kwargs fs = (Inr r, fs') \<Longrightarrow> r = PyNone"
  by (auto simp: write_interpolate_ipf_undecorated_def
      split: sum.splits pyval.splits dest: ipf_loop_returns_none)

lemma decorated_scalar_mode:
  assumes "2 \<le> length args" "shape_is_unit (args ! 1)"
  shows "write_interpolate_ipf np_log10 args kwargs fs =
    write_interpolate_ipf_undecorated np_log10 (scalar_args args) (scalar_kwargs kwargs) fs"
proof (cases "write_interpolate_ipf_undecorated np_log10 (scalar_args args) (scalar_kwargs kwargs) fs")
  case (Pair res fs')
  show ?thesis
  proof (cases res)
    case (Inl e)
    with Pair show ?thesis
      by (simp add: write_interpolate_ipf_def scalar_wrapper_scalar_mode [OF assms])
  next
    case (Inr r)
    with Pair undecorated_returns_none have "r = PyNone" by blast
    with Pair Inr show ?thesis
      by (simp add: write_interpolate_ipf_def scalar_wrapper_scalar_mode [OF assms])
  qed
qed

text \<open>
  A call on seven numbers is the call on the arrays of one entry each: the case of the
  module's own function in which a scalar call agrees with the array call.
\<close>

lemma write_interpolate_ipf_scalar_call:
  "write_interpolate_ipf np_log10 [Str dir, Num t, Num g, Num m, Num a, Num n, Num c]
       (case v of None \<Rightarrow> [] | Some x \<Rightarrow> [(''vm'', Num x)]) fs =
   write_interpolate_ipf np_log10 (ipf_args dir [t] [g] [m] [a] [n] [c])
       (vm_kwargs (map_option (\<lambda>x. [x]) v)) fs"
proof -
  have a: "scalar_args [Str dir, Num t, Num g, Num m, Num a, Num n, Num c] =
      ipf_args dir [t] [g] [m] [a] [n] [c]"
    by (simp add: scalar_args_Cons ipf_args_def)
  have k: "scalar_kwargs (case v of None \<Rightarrow> [] | Some x \<Rightarrow> [(''vm'', Num x)]) =
      vm_kwargs (map_option (\<lambda>x. [x]) v)"
    by (cases v) (simp_all add: scalar_kwargs_def vm_kwargs_def)
  show ?thesis
    by (simp add: decorated_scalar_mode decorated_arrays a k)
qed

lemma read_lines_success:
  assumes "can_open_w fs (path_join dir ''input.ipf'')"
    and "length ts \<le> shortest_other gs ms as ns cs vm"
  shows "read_lines
      (snd (write_interpolate_ipf np_log10 (ipf_args dir ts gs ms as ns cs) (vm_kwargs vm) fs))
      (path_join dir ''input.ipf'') =
    Some (map (record_line np_log10 ts gs ms as ns cs vm) [0..<length ts])"
  by (simp add: write_interpolate_ipf_success [OF assms] read_lines_def lines_of_records)



lemma sample_path: "path_join ''run'' ''input.ipf'' = ''run/input.ipf''"
  by (simp add: path_join_def)

lemma sample_open: "can_open_w empty_fs (path_join ''run'' ''input.ipf'')"
  by (simp add: empty_fs_def)

lemma sample_lengths:
  "length sample_teff \<le> shortest_other sample_logg sample_metals sample_zero sample_zero
     sample_cm (Some sample_vm)"
  "length sample_teff \<le> shortest_other sample_logg sample_metals sample_zero sample_zero
     sample_cm None"
  "shortest_other sample_short sample_metals sample_zero sample_zero sample_cm None
     < length sample_teff"
  by (simp_all add: shortest_other_def sample_teff_def sample_logg_def sample_metals_def
      sample_zero_def sample_cm_def sample_vm_def sample_short_def)






lemma undecorated_success_pair:
  assumes "can_open_w fs (path_join dir ''input.ipf'')"
    and "length ts \<le> shortest_other gs ms as ns cs vm"
  shows "write_interpolate_ipf_undecorated np_log10 (ipf_args dir ts gs ms as ns cs) (vm_kwargs vm) fs =
     (Inr PyNone,
      snd (write_interpolate_ipf_undecorated np_log10 (ipf_args dir ts gs ms as ns cs)
             (vm_kwargs vm) fs))"
  using write_interpolate_ipf_success [OF assms, of np_log10]
  by (simp add: decorated_arrays)

section \<open>The decorator on scalar calls\<close>

text \<open>
  Claim C8. In scalar mode and in array mode alike, when the wrapped function, called on the
  arguments the decorator hands it, returns \<^verbatim>\<open>None\<close>, the decorated function returns
  \<^verbatim>\<open>None\<close> with the same state: no row is taken from it.
\<close>

theorem scalar_wrapper_none:
  assumes "2 \<le> length args"
    and "func (if shape_is_unit (args ! 1) then scalar_args args else args)
           (if shape_is_unit (args ! 1) then scalar_kwargs kwargs else kwargs) s = (Inr PyNone, s')"
  shows "scalar_wrapper func args kwargs s = (Inr PyNone, s')"
  using assms by (simp add: scalar_wrapper_def Let_def)

lemma sample_scalar_lengths:
  "length [Finite 4750] \<le> shortest_other [Finite (5 / 2)] [Finite (- 1 / 4)] [Finite 0]
     [Finite 0] [Finite 0] None"
  by (simp add: shortest_other_def)

text \<open>
  The theorem for the record writer before decoration, which returns \<^verbatim>\<open>None\<close>: on seven
  numbers, and on the sample arrays.
\<close>

theorem scalar_wrapper_none_witness:
  "2 \<le> length [Str ''run'', Num (Finite 4750), Num (Finite (5 / 2)), Num (Finite (- 1 / 4)),
       Num (Finite 0), Num (Finite 0), Num (Finite 0)] \<and>
   write_interpolate_ipf_undecorated log10_sample
     (ipf_args ''run'' [Finite 4750] [Finite (5 / 2)] [Finite (- 1 / 4)] [Finite 0] [Finite 0]
        [Finite 0]) [] empty_fs =
     (Inr PyNone,
      snd (write_interpolate_ipf_undecorated log10_sample
        (ipf_args ''run'' [Finite 4750] [Finite (5 / 2)] [Finite (- 1 / 4)] [Finite 0] [Finite 0]
           [Finite 0]) [] empty_fs)) \<and>
   scalar_wrapper (write_interpolate_ipf_undecorated log10_sample)
     [Str ''run'', Num (Finite 4750), Num (Finite (5 / 2)), Num (Finite (- 1 / 4)),
      Num (Finite 0), Num (Finite 0), Num (Finite 0)] [] empty_fs =
     (Inr PyNone,
      snd (write_interpolate_ipf_undecorated log10_sample
        (ipf_args ''run'' [Finite 4750] [Finite (5 / 2)] [Finite (- 1 / 4)] [Finite 0] [Finite 0]
           [Finite 0]) [] empty_fs)) \<and>
   2 \<le> length (ipf_args ''run'' sample_teff sample_logg sample_metals sample_zero sample_zero
       sample_cm) \<and>
   write_interpolate_ipf_undecorated log10_sample
     (ipf_args ''run'' sample_teff sample_logg sample_metals sample_zero sample_zero sample_cm)
     [] empty_fs =
     (Inr PyNone,
      snd (write_interpolate_ipf_undecorated log10_sample
        (ipf_args ''run'' sample_teff sample_logg sample_metals sample_zero sample_zero sample_cm)
        [] empty_fs)) \<and>
   scalar_wrapper (write_interpolate_ipf_undecorated log10_sample)
     (ipf_args ''run'' sample_teff sample_logg sample_metals sample_zero sample_zero sample_cm)
     [] empty_fs =
     (Inr PyNone,
      snd (write_interpolate_ipf_undecorated log10_sample
        (ipf_args ''run'' sample_teff sample_logg sample_metals sample_zero sample_zero sample_cm)
        [] empty_fs))"
proof -
  let ?U = "write_interpolate_ipf_undecorated log10_sample"
  let ?A = "[Str ''run'', Num (Finite 4750), Num (Finite (5 / 2)), Num (Finite (- 1 / 4)),
       Num (Finite 0), Num (Finite 0), Num (Finite 0)]"
  let ?A1 = "ipf_args ''run'' [Finite 4750] [Finite (5 / 2)] [Finite (- 1 / 4)] [Finite 0]
       [Finite 0] [Finite 0]"
  let ?B = "ipf_args ''run'' sample_teff sample_logg sample_metals sample_zero sample_zero
       sample_cm"
  have k: "vm_kwargs None = []" by (simp add: vm_kwargs_def)
  have la: "2 \<le> length ?A" by simp
  have lb: "2 \<le> length ?B" by (simp add: ipf_args_def)
  have ua: "?U ?A1 [] empty_fs = (Inr PyNone, snd (?U ?A1 [] empty_fs))"
    using undecorated_success_pair [OF sample_open sample_scalar_lengths, of log10_sample]
    by (simp only: k)
  have ub: "?U ?B [] empty_fs = (Inr PyNone, snd (?U ?B [] empty_fs))"
    using undecorated_success_pair [OF sample_open sample_lengths(2), of log10_sample]
    by (simp only: k)
  have sa: "(if shape_is_unit (?A ! 1) then scalar_args ?A else ?A) = ?A1"
    by (simp add: scalar_args_Cons ipf_args_def)
  have ka: "(if shape_is_unit (?A ! 1) then scalar_kwargs [] else []) = []"
    by (simp add: scalar_kwargs_def)
  have sb: "(if shape_is_unit (?B ! 1) then scalar_args ?B else ?B) = ?B"
    by (simp add: ipf_args_def)
  have kb: "(if shape_is_unit (?B ! 1) then scalar_kwargs [] else []) = []"
    by (simp add: ipf_args_def)
  have ha: "?U (if shape_is_unit (?A ! 1) then scalar_args ?A else ?A)
      (if shape_is_unit (?A ! 1) then scalar_kwargs [] else []) empty_fs =
      (Inr PyNone, snd (?U ?A1 [] empty_fs))"
    using ua by (simp only: sa ka)
  have hb: "?U (if shape_is_unit (?B ! 1) then scalar_args ?B else ?B)
      (if shape_is_unit (?B ! 1) then scalar_kwargs [] else []) empty_fs =
      (Inr PyNone, snd (?U ?B [] empty_fs))"
    using ub by (simp only: sb kb)
  note wa = scalar_wrapper_none [of ?A ?U "[]" empty_fs "snd (?U ?A1 [] empty_fs)", OF la ha]
  note wb = scalar_wrapper_none [of ?B ?U "[]" empty_fs "snd (?U ?B [] empty_fs)", OF lb hb]
  from la ua wa lb ub wb show ?thesis
    by (intro conjI)
qed

text \<open>
  Claim C2 as stated covers every wrapped function. For a function returning a
  one-dimensional array the array call indexed at position 0 gives a number, while the
  scalar call raises \<^verbatim>\<open>IndexError\<close>, since \<^verbatim>\<open>result[0,:]\<close> needs two axes. For the
  record writer of the module the scalar call returns \<^verbatim>\<open>None\<close>, as the array call does,
  and \<^verbatim>\<open>None\<close> cannot be indexed.
\<close>

theorem scalar_wrapper_item_0_counterexample:
  "scalar_wrapper teff_itself [Str ''run'', Num (Finite 4750), Num (Finite (5 / 2))] [] () =
     (Inl IndexError, ()) \<and>
   teff_itself [Str ''run'', Arr [Num (Finite 4750)], Arr [Num (Finite (5 / 2))]] [] () =
     (Inr (Arr [Num (Finite 4750)]), ()) \<and>
   item_0 (Arr [Num (Finite 4750)]) = Inr (Num (Finite 4750)) \<and>
   fst (write_interpolate_ipf log10_sample
     [Str ''run'', Num (Finite 4750), Num (Finite (5 / 2)), Num (Finite (- 1 / 4)),
      Num (Finite 0), Num (Finite 0), Num (Finite 0)] [] empty_fs) = Inr PyNone \<and>
   fst (write_interpolate_ipf log10_sample
     [Str ''run'', Arr [Num (Finite 4750)], Arr [Num (Finite (5 / 2))],
      Arr [Num (Finite (- 1 / 4))], Arr [Num (Finite 0)], Arr [Num (Finite 0)],
      Arr [Num (Finite 0)]] [] empty_fs) = Inr PyNone \<and>
   item_0 PyNone = Inl TypeError"
proof -
  have a: "scalar_wrapper teff_itself [Str ''run'', Num (Finite 4750), Num (Finite (5 / 2))] [] () =
     (Inl IndexError, ())"
    by (simp add: scalar_wrapper_def scalar_args_Cons scalar_kwargs_def teff_itself_def)
  have b: "teff_itself [Str ''run'', Arr [Num (Finite 4750)], Arr [Num (Finite (5 / 2))]] [] () =
     (Inr (Arr [Num (Finite 4750)]), ())"
    by (simp add: teff_itself_def)
  have k: "vm_kwargs None = []" by (simp add: vm_kwargs_def)
  have d: "fst (write_interpolate_ipf log10_sample
     (ipf_args ''run'' [Finite 4750] [Finite (5 / 2)] [Finite (- 1 / 4)] [Finite 0] [Finite 0]
        [Finite 0]) [] empty_fs) = Inr PyNone"
    using write_interpolate_ipf_success [OF sample_open sample_scalar_lengths, of log10_sample]
    by (simp add: k)
  have c: "fst (write_interpolate_ipf log10_sample
     [Str ''run'', Num (Finite 4750), Num (Finite (5 / 2)), Num (Finite (- 1 / 4)),
      Num (Finite 0), Num (Finite 0), Num (Finite 0)] [] empty_fs) = Inr PyNone"
    using write_interpolate_ipf_scalar_call [of log10_sample "''run''" "Finite 4750"
        "Finite (5 / 2)" "Finite (- 1 / 4)" "Finite 0" "Finite 0" "Finite 0" None empty_fs] d
    by (simp add: k)
  have d': "fst (write_interpolate_ipf log10_sample
     [Str ''run'', Arr [Num (Finite 4750)], Arr [Num (Finite (5 / 2))],
      Arr [Num (Finite (- 1 / 4))], Arr [Num (Finite 0)], Arr [Num (Finite 0)],
      Arr [Num (Finite 0)]] [] empty_fs) = Inr PyNone"
    using d by (simp add: ipf_args_def)
  from a b c d' show ?thesis by simp
qed

section \<open>The number of records written\<close>

lemma read_lines_short:
  assumes "can_open_w fs (path_join dir ''input.ipf'')"
    and "shortest_other gs ms as ns cs vm < length ts"
  shows "read_lines
      (snd (write_interpolate_ipf np_log10 (ipf_args dir ts gs ms as ns cs) (vm_kwargs vm) fs))
      (path_join dir ''input.ipf'') =
    Some (map (record_line np_log10 ts gs ms as ns cs vm) [0..<shortest_other gs ms as ns cs vm])"
  by (simp add: write_interpolate_ipf_short [OF assms] read_lines_def lines_of_records)

text \<open>
  Claim C9, as amended. In array mode the loop runs over the positions of the effective
  temperatures. When every other array is at least that long the call returns \<^verbatim>\<open>None\<close>,
  the file holds exactly one line per effective temperature, and the entries beyond that
  length play no part: the call is the call on the arrays cut to that length. When some
  other array is shorter the call raises \<^verbatim>\<open>IndexError\<close>, and the file holds one line for
  each position of the shortest array, fewer than there are effective temperatures.
\<close>

theorem write_interpolate_ipf_lines_written:
  assumes "can_open_w fs (path_join dir ''input.ipf'')"
  shows "(length ts \<le> shortest_other gs ms as ns cs vm \<longrightarrow>
      fst (write_interpolate_ipf np_log10 (ipf_args dir ts gs ms as ns cs) (vm_kwargs vm) fs) =
        Inr PyNone \<and>
      map_option length (read_lines
        (snd (write_interpolate_ipf np_log10 (ipf_args dir ts gs ms as ns cs) (vm_kwargs vm) fs))
        (path_join dir ''input.ipf'')) = Some (length ts) \<and>
      write_interpolate_ipf np_log10 (ipf_args dir ts gs ms as ns cs) (vm_kwargs vm) fs =
        write_interpolate_ipf np_log10
          (ipf_args dir ts (take (length ts) gs) (take (length ts) ms) (take (length ts) as)
             (take (length ts) ns) (take (length ts) cs))
          (vm_kwargs (map_option (take (length ts)) vm)) fs) \<and>
    (shortest_other gs ms as ns cs vm < length ts \<longrightarrow>
      fst (write_interpolate_ipf np_log10 (ipf_args dir ts gs ms as ns cs) (vm_kwargs vm) fs) =
        Inl IndexError \<and>
      map_option length (read_lines
        (snd (write_interpolate_ipf np_log10 (ipf_args dir ts gs ms as ns cs) (vm_kwargs vm) fs))
        (path_join dir ''input.ipf'')) = Some (shortest_other gs ms as ns cs vm))"
proof (intro conjI impI)
  assume le: "length ts \<le> shortest_other gs ms as ns cs vm"
  let ?n = "length ts"
  show "fst (write_interpolate_ipf np_log10 (ipf_args dir ts gs ms as ns cs) (vm_kwargs vm) fs) =
        Inr PyNone"
    by (simp add: write_interpolate_ipf_success [OF assms le])
  show "map_option length (read_lines
        (snd (write_interpolate_ipf np_log10 (ipf_args dir ts gs ms as ns cs) (vm_kwargs vm) fs))
        (path_join dir ''input.ipf'')) = Some (length ts)"
    by (simp add: read_lines_success [OF assms le])
  from le have len: "?n \<le> length gs" "?n \<le> length ms" "?n \<le> length as" "?n \<le> length ns"
    "?n \<le> length cs" "\<forall>vs. vm = Some vs \<longrightarrow> ?n \<le> length vs"
    by (auto simp: shortest_other_def split: option.splits)
  then have le': "?n \<le> shortest_other (take ?n gs) (take ?n ms) (take ?n as) (take ?n ns)
      (take ?n cs) (map_option (take ?n) vm)"
    by (cases vm) (simp_all add: shortest_other_def)
  have "record_line np_log10 ts (take ?n gs) (take ?n ms) (take ?n as) (take ?n ns)
      (take ?n cs) (map_option (take ?n) vm) i = record_line np_log10 ts gs ms as ns cs vm i"
    if "i < ?n" for i
    using that by (cases vm) (simp_all add: record_line_def)
  then have "map (\<lambda>i. record_line np_log10 ts (take ?n gs) (take ?n ms) (take ?n as) (take ?n ns)
      (take ?n cs) (map_option (take ?n) vm) i @ ''\<newline>'') [0..<?n] =
      map (\<lambda>i. record_line np_log10 ts gs ms as ns cs vm i @ ''\<newline>'') [0..<?n]"
    by simp
  then show "write_interpolate_ipf np_log10 (ipf_args dir ts gs ms as ns cs) (vm_kwargs vm) fs =
        write_interpolate_ipf np_log10
          (ipf_args dir ts (take ?n gs) (take ?n ms) (take ?n as) (take ?n ns) (take ?n cs))
          (vm_kwargs (map_option (take ?n) vm)) fs"
    by (simp only: write_interpolate_ipf_success [OF assms le]
        write_interpolate_ipf_success [OF assms le'])
next
  assume short: "shortest_other gs ms as ns cs vm < length ts"
  show "fst (write_interpolate_ipf np_log10 (ipf_args dir ts gs ms as ns cs) (vm_kwargs vm) fs) =
        Inl IndexError"
    by (simp add: write_interpolate_ipf_short [OF assms short])
  show "map_option length (read_lines
        (snd (write_interpolate_ipf np_log10 (ipf_args dir ts gs ms as ns cs) (vm_kwargs vm) fs))
        (path_join dir ''input.ipf'')) = Some (shortest_other gs ms as ns cs vm)"
    by (simp add: read_lines_short [OF assms short])
qed

lemma sample_short_value:
  "shortest_other sample_short sample_metals sample_zero sample_zero sample_cm None = 1"
  by (simp add: shortest_other_def sample_metals_def sample_zero_def sample_cm_def
      sample_short_def)

text \<open>
  The theorem on the sample arrays: a carbon array one entry too long is accepted, a surface
  gravity array one entry short raises and leaves one line.
\<close>

theorem write_interpolate_ipf_lines_written_witness:
  "can_open_w empty_fs (path_join ''run'' ''input.ipf'') \<and>
   length sample_teff \<le> shortest_other sample_logg sample_metals sample_zero sample_zero
     sample_cm None \<and>
   fst (write_interpolate_ipf log10_sample
        (ipf_args ''run'' sample_teff sample_logg sample_metals sample_zero sample_zero sample_cm)
        (vm_kwargs None) empty_fs) = Inr PyNone \<and>
   map_option length (read_lines
     (snd (write_interpolate_ipf log10_sample
        (ipf_args ''run'' sample_teff sample_logg sample_metals sample_zero sample_zero sample_cm)
        (vm_kwargs None) empty_fs))
     ''run/input.ipf'') = Some 2 \<and>
   shortest_other sample_short sample_metals sample_zero sample_zero sample_cm None
     < length sample_teff \<and>
   fst (write_interpolate_ipf log10_sample
        (ipf_args ''run'' sample_teff sample_short sample_metals sample_zero sample_zero sample_cm)
        (vm_kwargs None) empty_fs) = Inl IndexError \<and>
   map_option length (read_lines
     (snd (write_interpolate_ipf log10_sample
        (ipf_args ''run'' sample_teff sample_short sample_metals sample_zero sample_zero sample_cm)
        (vm_kwargs None) empty_fs))
     ''run/input.ipf'') = Some 1"
proof -
  have n: "length sample_teff = 2" by (simp add: sample_teff_def)
  note ok = write_interpolate_ipf_lines_written [OF sample_open, of sample_teff sample_logg
      sample_metals sample_zero sample_zero sample_cm None log10_sample]
  note short = write_interpolate_ipf_lines_written [OF sample_open, of sample_teff sample_short
      sample_metals sample_zero sample_zero sample_cm None log10_sample]
  have a: "fst (write_interpolate_ipf log10_sample
        (ipf_args ''run'' sample_teff sample_logg sample_metals sample_zero sample_zero sample_cm)
        (vm_kwargs None) empty_fs) = Inr PyNone"
    using ok sample_lengths(2) by blast
  have "map_option length (read_lines
     (snd (write_interpolate_ipf log10_sample
        (ipf_args ''run'' sample_teff sample_logg sample_metals sample_zero sample_zero sample_cm)
        (vm_kwargs None) empty_fs))
     (path_join ''run'' ''input.ipf'')) = Some (length sample_teff)"
    using ok sample_lengths(2) by blast
  then have b: "map_option length (read_lines
     (snd (write_interpolate_ipf log10_sample
        (ipf_args ''run'' sample_teff sample_logg sample_metals sample_zero sample_zero sample_cm)
        (vm_kwargs None) empty_fs))
     ''run/input.ipf'') = Some 2"
    by (simp only: sample_path n)
  have c: "fst (write_interpolate_ipf log10_sample
        (ipf_args ''run'' sample_teff sample_short sample_metals sample_zero sample_zero sample_cm)
        (vm_kwargs None) empty_fs) = Inl IndexError"
    using short sample_lengths(3) by blast
  have "map_option length (read_lines
     (snd (write_interpolate_ipf log10_sample
        (ipf_args ''run'' sample_teff sample_short sample_metals sample_zero sample_zero sample_cm)
        (vm_kwargs None) empty_fs))
     (path_join ''run'' ''input.ipf'')) =
     Some (shortest_other sample_short sample_metals sample_zero sample_zero sample_cm None)"
    using short sample_lengths(3) by blast
  then have d: "map_option length (read_lines
     (snd (write_interpolate_ipf log10_sample
        (ipf_args ''run'' sample_teff sample_short sample_metals sample_zero sample_zero sample_cm)
        (vm_kwargs None) empty_fs))
     ''run/input.ipf'') = Some 1"
    by (simp only: sample_path sample_short_value)
  from sample_open sample_lengths(2,3) a b c d show ?thesis
    by (simp only: simp_thms)
qed

text \<open>
  Claim C9 as stated gives every call in array mode as many lines as effective
  temperatures. With two effective temperatures and one surface gravity the call raises
  and the file holds one line.
\<close>

theorem write_interpolate_ipf_line_count_counterexample:
  "length sample_teff = 2 \<and>
   fst (write_interpolate_ipf log10_sample
        (ipf_args ''run'' sample_teff sample_short sample_metals sample_zero sample_zero sample_cm)
        (vm_kwargs None) empty_fs) = Inl IndexError \<and>
   map_option length (read_lines
     (snd (write_interpolate_ipf log10_sample
        (ipf_args ''run'' sample_teff sample_short sample_metals sample_zero sample_zero sample_cm)
        (vm_kwargs None) empty_fs))
     ''run/input.ipf'') = Some 1"
proof -
  have n: "length sample_teff = 2" by (simp add: sample_teff_def)
  have c: "fst (write_interpolate_ipf log10_sample
        (ipf_args ''run'' sample_teff sample_short sample_metals sample_zero sample_zero sample_cm)
        (vm_kwargs None) empty_fs) = Inl IndexError"
    by (simp add: write_interpolate_ipf_short [OF sample_open sample_lengths(3)])
  have "map_option length (read_lines
     (snd (write_interpolate_ipf log10_sample
        (ipf_args ''run'' sample_teff sample_short sample_metals sample_zero sample_zero sample_cm)
        (vm_kwargs None) empty_fs))
     (path_join ''run'' ''input.ipf'')) =
     Some (shortest_other sample_short sample_metals sample_zero sample_zero sample_cm None)"
    by (simp add: read_lines_short [OF sample_open sample_lengths(3)])
  then have d: "map_option length (read_lines
     (snd (write_interpolate_ipf log10_sample
        (ipf_args ''run'' sample_teff sample_short sample_metals sample_zero sample_zero sample_cm)
        (vm_kwargs None) empty_fs))
     ''run/input.ipf'') = Some 1"
    by (simp only: sample_path sample_short_value)
  from n c d show ?thesis by (simp only: simp_thms)
qed

section \<open>The first row of a scalar call\<close>

lemma scalar_kwargs_vm:
  "scalar_kwargs (case vm of None \<Rightarrow> [] | Some v \<Rightarrow> [(''vm'', v)]) =
   (case vm of None \<Rightarrow> [] | Some v \<Rightarrow> [(''vm'', if v = PyNone then PyNone else Arr [v])])"
  by (cases vm) (simp_all add: scalar_kwargs_def split: pyval.splits)

text \<open>
  Claim C2, as amended. On a scalar call the decorator calls the wrapped function with every
  parameter after the first turned into an array of one entry, and with the keyword
  \<^verbatim>\<open>vm\<close> turned into an array of one entry when it is given and is not \<^verbatim>\<open>None\<close>, left
  out when it is not given, and left as \<^verbatim>\<open>None\<close> when it is \<^verbatim>\<open>None\<close>. When that call
  returns an array of two or more dimensions with at least one row, the decorated function
  returns its first row, which is that result indexed at position 0.
\<close>

theorem scalar_wrapper_first_row_vm:
  assumes "shape_is_unit p"
    and "func (ctx # map (\<lambda>q. Arr [q]) (p # ps))
           (case vm of None \<Rightarrow> []
            | Some v \<Rightarrow> [(''vm'', if v = PyNone then PyNone else Arr [v])]) s =
           (Inr (Arr (Arr row # rows)), s')"
  shows "scalar_wrapper func (ctx # p # ps)
           (case vm of None \<Rightarrow> [] | Some v \<Rightarrow> [(''vm'', v)]) s = (Inr (Arr row), s') \<and>
    item_0 (Arr (Arr row # rows)) = Inr (Arr row)"
proof -
  let ?kw = "case vm of None \<Rightarrow> [] | Some v \<Rightarrow> [(''vm'', v)]"
  have "scalar_wrapper func (ctx # p # ps) ?kw s =
    (case func (scalar_args (ctx # p # ps)) (scalar_kwargs ?kw) s of
       (Inl e, s') \<Rightarrow> (Inl e, s')
     | (Inr result, s') \<Rightarrow>
         if result = PyNone then (Inr result, s') else (getitem_0_all result, s'))"
    using assms(1) by (intro scalar_wrapper_scalar_mode) simp_all
  with assms(2) show ?thesis
    by (simp add: scalar_args_Cons scalar_kwargs_vm)
qed

text \<open>
  The theorem for a function that reads \<^verbatim>\<open>vm\<close>: with a microturbulence of 10, with
  \<^verbatim>\<open>vm=None\<close>, and without the keyword.
\<close>

theorem scalar_wrapper_first_row_vm_witness:
  "shape_is_unit (Num (Finite 4750)) \<and>
   rows_with_vm (Str ''run'' # map (\<lambda>q. Arr [q]) [Num (Finite 4750), Num (Finite (5 / 2))])
     [(''vm'', Arr [Num (Finite 10)])] () =
     (Inr (Arr [Arr [Num (Finite 4750), Num (Finite 10)]]), ()) \<and>
   scalar_wrapper rows_with_vm [Str ''run'', Num (Finite 4750), Num (Finite (5 / 2))]
     [(''vm'', Num (Finite 10))] () =
     (Inr (Arr [Num (Finite 4750), Num (Finite 10)]), ()) \<and>
   item_0 (Arr [Arr [Num (Finite 4750), Num (Finite 10)]]) =
     Inr (Arr [Num (Finite 4750), Num (Finite 10)]) \<and>
   rows_with_vm (Str ''run'' # map (\<lambda>q. Arr [q]) [Num (Finite 4750), Num (Finite (5 / 2))])
     [(''vm'', PyNone)] () = (Inr (Arr [Arr [Num (Finite 4750)]]), ()) \<and>
   scalar_wrapper rows_with_vm [Str ''run'', Num (Finite 4750), Num (Finite (5 / 2))]
     [(''vm'', PyNone)] () = (Inr (Arr [Num (Finite 4750)]), ()) \<and>
   rows_with_vm (Str ''run'' # map (\<lambda>q. Arr [q]) [Num (Finite 4750), Num (Finite (5 / 2))])
     [] () = (Inr (Arr [Arr [Num (Finite 4750)]]), ()) \<and>
   scalar_wrapper rows_with_vm [Str ''run'', Num (Finite 4750), Num (Finite (5 / 2))]
     [] () = (Inr (Arr [Num (Finite 4750)]), ())"
proof -
  let ?as = "Str ''run'' # map (\<lambda>q. Arr [q]) [Num (Finite 4750), Num (Finite (5 / 2))]"
  have u: "shape_is_unit (Num (Finite 4750))" by simp
  have r1: "rows_with_vm ?as
     (case Some (Num (Finite 10)) of None \<Rightarrow> []
      | Some v \<Rightarrow> [(''vm'', if v = PyNone then PyNone else Arr [v])]) () =
     (Inr (Arr (Arr [Num (Finite 4750), Num (Finite 10)] # [])), ())"
    by (simp add: rows_with_vm_def)
  have r2: "rows_with_vm ?as
     (case Some PyNone of None \<Rightarrow> []
      | Some v \<Rightarrow> [(''vm'', if v = PyNone then PyNone else Arr [v])]) () =
     (Inr (Arr (Arr [Num (Finite 4750)] # [])), ())"
    by (simp add: rows_with_vm_def)
  have r3: "rows_with_vm ?as
     (case None of None \<Rightarrow> []
      | Some v \<Rightarrow> [(''vm'', if v = PyNone then PyNone else Arr [v])]) () =
     (Inr (Arr (Arr [Num (Finite 4750)] # [])), ())"
    by (simp add: rows_with_vm_def)
  note w1 = scalar_wrapper_first_row_vm [of "Num (Finite 4750)" rows_with_vm "Str ''run''"
      "[Num (Finite (5 / 2))]" "Some (Num (Finite 10))" "()"
      "[Num (Finite 4750), Num (Finite 10)]" "[]" "()", OF u r1]
  note w2 = scalar_wrapper_first_row_vm [of "Num (Finite 4750)" rows_with_vm "Str ''run''"
      "[Num (Finite (5 / 2))]" "Some PyNone" "()" "[Num (Finite 4750)]" "[]" "()", OF u r2]
  note w3 = scalar_wrapper_first_row_vm [of "Num (Finite 4750)" rows_with_vm "Str ''run''"
      "[Num (Finite (5 / 2))]" "None" "()" "[Num (Finite 4750)]" "[]" "()", OF u r3]
  from u r1 r2 r3 w1 w2 w3 show ?thesis
    by simp
qed

section \<open>The formatter prints the nearest decimal\<close>

lemma digit_value_nth: "k < 10 \<Longrightarrow> digit_value (''0123456789'' ! k) = k"
proof -
  assume "k < 10"
  then have "k = 0 \<or> k = 1 \<or> k = 2 \<or> k = 3 \<or> k = 4 \<or> k = 5 \<or> k = 6 \<or> k = 7 \<or>
      k = 8 \<or> k = 9"
    by arith
  then show ?thesis
    by (elim disjE) (simp_all add: digit_value_def)
qed

lemma digits_value_snoc: "digits_value (xs @ [c]) = 10 * digits_value xs + digit_value c"
  by (simp add: digits_value_def)

lemma digits_value_single: "digits_value [c] = digit_value c"
  by (simp add: digits_value_def)

lemma digits_value_digits_nat: "digits_value (digits_nat n) = n"
proof (induction n rule: digits_nat.induct)
  case (1 n)
  show ?case
  proof (cases "n < 10")
    case True
    then show ?thesis
      by (subst digits_nat.simps) (simp add: digits_value_single digit_value_nth)
  next
    case False
    have "digit_value (''0123456789'' ! (n mod 10)) = n mod 10"
      by (rule digit_value_nth) simp
    with False 1 show ?thesis
      by (subst digits_nat.simps) (simp add: digits_value_snoc)
  qed
qed

lemma digits_value_zeros: "digits_value (replicate k (CHR ''0'') @ ds) = digits_value ds"
proof (induction k)
  case 0
  then show ?case by simp
next
  case (Suc k)
  have z: "digit_value (CHR ''0'') = 0" by (simp add: digit_value_def)
  from Suc show ?case
    by (simp add: digits_value_def z)
qed

lemma length_digits_nat: "0 < p \<Longrightarrow> n < 10 ^ p \<Longrightarrow> length (digits_nat n) \<le> p"
proof (induction n arbitrary: p rule: digits_nat.induct)
  case (1 n)
  show ?case
  proof (cases "n < 10")
    case True
    with 1(2) show ?thesis
      by (subst digits_nat.simps) simp
  next
    case False
    obtain p' where p': "p = Suc p'" using 1(2) by (cases p) auto
    have "p' \<noteq> 0"
    proof
      assume "p' = 0"
      with p' 1(3) False show False by simp
    qed
    then have pos: "0 < p'" by simp
    have "n div 10 < 10 ^ p'"
      using 1(3) p' by (simp add: div_less_iff_less_mult mult.commute)
    from 1(1) [OF False pos this] False p' show ?thesis
      by (subst digits_nat.simps) simp
  qed
qed

lemma list_all_is_digit: "list_all is_digit xs \<longleftrightarrow> set xs \<subseteq> set ''0123456789''"
  unfolding list_all_iff is_digit_def by blast

lemma digits_nat_all_digits: "list_all is_digit (digits_nat n)"
  unfolding list_all_is_digit by (rule digits_nat_chars)

lemma digits_nat_canonical: "digits_nat n = ''0'' \<or> hd (digits_nat n) \<noteq> CHR ''0''"
proof (induction n rule: digits_nat.induct)
  case (1 n)
  show ?case
  proof (cases "n < 10")
    case True
    have "n = 0" if "''0123456789'' ! n = CHR ''0''"
    proof -
      have "digit_value (''0123456789'' ! n) = n" using True by (rule digit_value_nth)
      with that show ?thesis by (simp add: digit_value_def)
    qed
    with True show ?thesis
      by (subst (1 2) digits_nat.simps) auto
  next
    case False
    have ne: "digits_nat (n div 10) \<noteq> ''0''"
    proof
      assume "digits_nat (n div 10) = ''0''"
      then have "digits_value (digits_nat (n div 10)) = digits_value ''0''" by simp
      then have "n div 10 = 0"
        by (simp add: digits_value_digits_nat digits_value_single digit_value_def)
      with False show False by simp
    qed
    with 1 [OF False] have "hd (digits_nat (n div 10)) \<noteq> CHR ''0''" by simp
    with False show ?thesis
      by (subst (1 2) digits_nat.simps) (simp add: digits_nat_nonempty)
  qed
qed

lemma round_half_even_nonneg: "0 \<le> r \<Longrightarrow> 0 \<le> round_half_even r"
  by (simp add: round_half_even_def Let_def)

lemma round_half_even_cases:
  obtains "r - of_int \<lfloor>r\<rfloor> < 1 / 2" "round_half_even r = \<lfloor>r\<rfloor>"
  | "1 / 2 < r - of_int \<lfloor>r\<rfloor>" "round_half_even r = \<lfloor>r\<rfloor> + 1"
  | "r - of_int \<lfloor>r\<rfloor> = 1 / 2" "even \<lfloor>r\<rfloor>" "round_half_even r = \<lfloor>r\<rfloor>"
  | "r - of_int \<lfloor>r\<rfloor> = 1 / 2" "odd \<lfloor>r\<rfloor>" "round_half_even r = \<lfloor>r\<rfloor> + 1"
proof (cases "r - of_int \<lfloor>r\<rfloor> < 1 / 2")
  case True
  then have "round_half_even r = \<lfloor>r\<rfloor>" by (simp add: round_half_even_def Let_def)
  with True that(1) show ?thesis by blast
next
  case False
  show ?thesis
  proof (cases "1 / 2 < r - of_int \<lfloor>r\<rfloor>")
    case True
    with False have "round_half_even r = \<lfloor>r\<rfloor> + 1" by (simp add: round_half_even_def Let_def)
    with True that(2) show ?thesis by blast
  next
    case h: False
    with False have e: "r - of_int \<lfloor>r\<rfloor> = 1 / 2" by linarith
    show ?thesis
    proof (cases "even \<lfloor>r\<rfloor>")
      case True
      with False h have "round_half_even r = \<lfloor>r\<rfloor>" by (simp add: round_half_even_def Let_def)
      with e True that(3) show ?thesis by blast
    next
      case o: False
      with False h have "round_half_even r = \<lfloor>r\<rfloor> + 1"
        by (simp add: round_half_even_def Let_def)
      with e o that(4) show ?thesis by blast
    qed
  qed
qed

lemma round_half_even_near: "\<bar>of_int (round_half_even r) - r\<bar> * 2 \<le> 1"
proof -
  have f: "of_int \<lfloor>r\<rfloor> \<le> r" "r < of_int \<lfloor>r\<rfloor> + 1" by linarith+
  show ?thesis
  proof (cases r rule: round_half_even_cases)
    case 1
    with f show ?thesis by simp
  next
    case 2
    with f show ?thesis by simp
  next
    case 3
    with f show ?thesis by simp
  next
    case 4
    with f show ?thesis by simp
  qed
qed

lemma round_half_even_tie:
  assumes "\<bar>of_int (round_half_even r) - r\<bar> * 2 = 1"
  shows "even (round_half_even r)"
proof -
  have f: "of_int \<lfloor>r\<rfloor> \<le> r" "r < of_int \<lfloor>r\<rfloor> + 1" by linarith+
  show ?thesis
  proof (cases r rule: round_half_even_cases)
    case 1
    with f assms show ?thesis by simp
  next
    case 2
    with f assms show ?thesis by simp
  next
    case 3
    then show ?thesis by simp
  next
    case 4
    then show ?thesis by simp
  qed
qed

lemma is_digit_not_point: "is_digit c \<Longrightarrow> c \<noteq> CHR ''.''"
  by (auto simp: is_digit_def)

lemma is_digit_not_minus: "is_digit c \<Longrightarrow> c \<noteq> CHR ''-''"
  by (auto simp: is_digit_def)

lemma fmt_fixed_shape:
  assumes "0 < p"
  obtains fp where
    "fmt_fixed p m = digits_nat (nat (round_half_even (m * 10 ^ p)) div 10 ^ p) @ CHR ''.'' # fp"
    "length fp = p" "list_all is_digit fp"
    "digits_value fp = nat (round_half_even (m * 10 ^ p)) mod 10 ^ p"
proof -
  let ?N = "nat (round_half_even (m * 10 ^ p))"
  let ?D = "digits_nat (?N mod 10 ^ p)"
  let ?fp = "replicate (p - length ?D) (CHR ''0'') @ ?D"
  have l: "length ?D \<le> p"
    using assms by (intro length_digits_nat) simp_all
  have 1: "fmt_fixed p m = digits_nat (?N div 10 ^ p) @ CHR ''.'' # ?fp"
    using assms by (simp add: fmt_fixed_def Let_def)
  have 2: "length ?fp = p" using l by simp
  have z: "is_digit (CHR ''0'')" by (simp add: is_digit_def)
  have "list_all is_digit (replicate (p - length ?D) (CHR ''0''))"
    using z by (induction "p - length ?D" arbitrary: p) (simp_all add: list_all_iff)
  then have 3: "list_all is_digit ?fp"
    using digits_nat_all_digits [of "?N mod 10 ^ p"] by simp
  have 4: "digits_value ?fp = ?N mod 10 ^ p"
    by (simp only: digits_value_zeros digits_value_digits_nat)
  from 1 2 3 4 that show ?thesis by blast
qed

lemma read_unsigned:
  assumes "list_all is_digit ip" "ip \<noteq> []" "list_all is_digit fp"
  shows "\<not> has_minus (ip @ CHR ''.'' # fp)"
    and "integer_digits (ip @ CHR ''.'' # fp) = ip"
    and "decimal_digits (ip @ CHR ''.'' # fp) = fp"
    and "decimal_value (ip @ CHR ''.'' # fp) =
      Some (of_nat (digits_value ip) + of_nat (digits_value fp) / 10 ^ length fp)"
proof -
  have np: "\<forall>c \<in> set ip. c \<noteq> CHR ''.''"
    using assms(1) by (auto simp: list_all_iff dest: is_digit_not_point)
  have "is_digit (hd ip)" using assms(1,2) by (cases ip) simp_all
  then have "hd ip \<noteq> CHR ''-''" by (rule is_digit_not_minus)
  then show m: "\<not> has_minus (ip @ CHR ''.'' # fp)"
    using assms(2) by (simp add: has_minus_def)
  then have u: "unsigned_part (ip @ CHR ''.'' # fp) = ip @ CHR ''.'' # fp"
    by (simp add: unsigned_part_def)
  show i: "integer_digits (ip @ CHR ''.'' # fp) = ip"
    using np by (simp add: integer_digits_def u)
  show d: "decimal_digits (ip @ CHR ''.'' # fp) = fp"
    using np by (simp add: decimal_digits_def u)
  show "decimal_value (ip @ CHR ''.'' # fp) =
      Some (of_nat (digits_value ip) + of_nat (digits_value fp) / 10 ^ length fp)"
    using assms m by (simp add: decimal_value_def i d)
qed

lemma read_signed:
  assumes "list_all is_digit ip" "ip \<noteq> []" "list_all is_digit fp"
  shows "has_minus (CHR ''-'' # ip @ CHR ''.'' # fp)"
    and "integer_digits (CHR ''-'' # ip @ CHR ''.'' # fp) = ip"
    and "decimal_digits (CHR ''-'' # ip @ CHR ''.'' # fp) = fp"
    and "decimal_value (CHR ''-'' # ip @ CHR ''.'' # fp) =
      Some (- (of_nat (digits_value ip) + of_nat (digits_value fp) / 10 ^ length fp))"
proof -
  have np: "\<forall>c \<in> set ip. c \<noteq> CHR ''.''"
    using assms(1) by (auto simp: list_all_iff dest: is_digit_not_point)
  show m: "has_minus (CHR ''-'' # ip @ CHR ''.'' # fp)"
    by (simp add: has_minus_def)
  then have u: "unsigned_part (CHR ''-'' # ip @ CHR ''.'' # fp) = ip @ CHR ''.'' # fp"
    by (simp add: unsigned_part_def)
  show i: "integer_digits (CHR ''-'' # ip @ CHR ''.'' # fp) = ip"
    using np by (simp add: integer_digits_def u)
  show d: "decimal_digits (CHR ''-'' # ip @ CHR ''.'' # fp) = fp"
    using np by (simp add: decimal_digits_def u)
  show "decimal_value (CHR ''-'' # ip @ CHR ''.'' # fp) =
      Some (- (of_nat (digits_value ip) + of_nat (digits_value fp) / 10 ^ length fp))"
    using assms m by (simp add: decimal_value_def i d)
qed

lemma div_mod_decimal:
  "(of_nat (n div 10 ^ p) :: rat) + of_nat (n mod 10 ^ p) / 10 ^ p = of_nat n / 10 ^ p"
proof -
  have "n = (n div 10 ^ p) * 10 ^ p + n mod 10 ^ p" by (rule div_mult_mod_eq [symmetric])
  then have "(of_nat n :: rat) = of_nat ((n div 10 ^ p) * 10 ^ p + n mod 10 ^ p)" by simp
  then have "(of_nat n :: rat) = of_nat (n div 10 ^ p) * 10 ^ p + of_nat (n mod 10 ^ p)"
    by (simp only: of_nat_add of_nat_mult of_nat_power of_nat_numeral)
  then show ?thesis by (simp add: field_simps)
qed

lemma scaled_distance:
  "\<bar>of_int R / 10 ^ p - m\<bar> * (2 * 10 ^ p) = \<bar>of_int R - m * 10 ^ p\<bar> * (2 :: rat)"
proof -
  have d: "(0 :: rat) < 10 ^ p" by simp
  have "of_int R / 10 ^ p - m = (of_int R - m * 10 ^ p) / 10 ^ p"
    by (simp add: field_simps)
  then have "\<bar>of_int R / 10 ^ p - m\<bar> = \<bar>of_int R - m * 10 ^ p\<bar> / 10 ^ p"
    by (simp add: abs_divide)
  then show ?thesis using d by simp
qed

lemma nearest_of_round:
  assumes "0 \<le> m"
  shows "nearest_decimal p m (of_int (round_half_even (m * 10 ^ p)) / 10 ^ p)"
    and "nearest_decimal p (- m) (- (of_int (round_half_even (m * 10 ^ p)) / 10 ^ p))"
proof -
  let ?R = "round_half_even (m * 10 ^ p)"
  let ?v = "of_int ?R / (10 :: rat) ^ p"
  have R0: "0 \<le> ?R" using assms by (intro round_half_even_nonneg) simp
  have dist: "\<bar>?v - m\<bar> * (2 * 10 ^ p) = \<bar>of_int ?R - m * 10 ^ p\<bar> * 2"
    by (rule scaled_distance)
  have near: "\<bar>?v - m\<bar> * (2 * 10 ^ p) \<le> 1"
    unfolding dist by (rule round_half_even_near)
  have v0: "0 \<le> ?v" using R0 by simp
  have "\<bar>?v\<bar> = ?v" using v0 by (rule abs_of_nonneg)
  then have "\<bar>?v\<bar> * 10 ^ p = of_int ?R" by simp
  then have fl: "\<lfloor>\<bar>?v\<bar> * 10 ^ p\<rfloor> = ?R" by simp
  have tie: "even \<lfloor>\<bar>?v\<bar> * 10 ^ p\<rfloor>" if "\<bar>?v - m\<bar> * (2 * 10 ^ p) = 1"
    using that unfolding dist fl by (rule round_half_even_tie)
  show "nearest_decimal p m ?v"
    using near tie by (simp add: nearest_decimal_def)
  have neg: "\<bar>- ?v - - m\<bar> = \<bar>?v - m\<bar>" by (simp add: abs_minus_commute)
  have absneg: "\<bar>- ?v\<bar> = \<bar>?v\<bar>" by simp
  show "nearest_decimal p (- m) (- ?v)"
    unfolding nearest_decimal_def neg absneg using near tie by simp
qed

lemma fmt_fixed_reads:
  assumes "0 < p" "0 \<le> m"
  obtains ip fp where "fmt_fixed p m = ip @ CHR ''.'' # fp"
    "list_all is_digit ip" "ip \<noteq> []" "list_all is_digit fp" "length fp = p"
    "ip = ''0'' \<or> hd ip \<noteq> CHR ''0''"
    "of_nat (digits_value ip) + of_nat (digits_value fp) / 10 ^ length fp =
       (of_int (round_half_even (m * 10 ^ p)) / 10 ^ p :: rat)"
proof -
  let ?R = "round_half_even (m * 10 ^ p)"
  let ?N = "nat ?R"
  let ?ip = "digits_nat (?N div 10 ^ p)"
  obtain fp where fp: "fmt_fixed p m = ?ip @ CHR ''.'' # fp" "length fp = p"
    "list_all is_digit fp" "digits_value fp = ?N mod 10 ^ p"
    using assms(1) by (rule fmt_fixed_shape)
  have R0: "0 \<le> ?R" using assms(2) by (intro round_half_even_nonneg) simp
  then have N: "(of_nat ?N :: rat) = of_int ?R" by simp
  have "(of_nat (digits_value ?ip) :: rat) + of_nat (digits_value fp) / 10 ^ length fp =
      of_nat (?N div 10 ^ p) + of_nat (?N mod 10 ^ p) / 10 ^ p"
    by (simp only: digits_value_digits_nat fp(2,4))
  also have "\<dots> = of_nat ?N / 10 ^ p" by (rule div_mod_decimal)
  finally have v: "(of_nat (digits_value ?ip) :: rat) + of_nat (digits_value fp) / 10 ^ length fp =
      of_int ?R / 10 ^ p"
    by (simp only: N)
  from fp(1) digits_nat_all_digits [of "?N div 10 ^ p"] digits_nat_nonempty [of "?N div 10 ^ p"]
    fp(3) fp(2) digits_nat_canonical [of "?N div 10 ^ p"] v that
  show ?thesis by blast
qed

lemma fmt_f_prints_as: "0 < p \<Longrightarrow> prints_as p x (fmt_f p x)"
proof (cases x)
  case (Finite q)
  assume p: "0 < p"
  have m: "0 \<le> \<bar>q\<bar>" by simp
  obtain ip fp where s: "fmt_fixed p \<bar>q\<bar> = ip @ CHR ''.'' # fp"
    and ip: "list_all is_digit ip" "ip \<noteq> []"
    and fp: "list_all is_digit fp" "length fp = p"
    and can: "ip = ''0'' \<or> hd ip \<noteq> CHR ''0''"
    and v: "of_nat (digits_value ip) + of_nat (digits_value fp) / 10 ^ length fp =
       (of_int (round_half_even (\<bar>q\<bar> * 10 ^ p)) / 10 ^ p :: rat)"
    using p m by (rule fmt_fixed_reads)
  show ?thesis
  proof (cases "q < 0")
    case True
    then have q: "q = - \<bar>q\<bar>" by simp
    have f: "fmt_f p (Finite q) = CHR ''-'' # ip @ CHR ''.'' # fp"
      by (simp only: fmt_f.simps s True if_True append_Cons append_Nil)
    have n: "nearest_decimal p q (- (of_int (round_half_even (\<bar>q\<bar> * 10 ^ p)) / 10 ^ p))"
      using nearest_of_round(2) [OF m, of p] q by simp
    note rs = read_signed [OF ip fp(1)]
    have dv: "decimal_value (CHR ''-'' # ip @ CHR ''.'' # fp) =
        Some (- (of_int (round_half_even (\<bar>q\<bar> * 10 ^ p)) / 10 ^ p))"
      unfolding rs(4) v [symmetric] by simp
    show ?thesis
      unfolding Finite f prints_as.simps rs(2) rs(3) dv
      using True fp(2) can n rs(1) by simp
  next
    case False
    then have q: "q = \<bar>q\<bar>" by simp
    have f: "fmt_f p (Finite q) = ip @ CHR ''.'' # fp"
      by (simp only: fmt_f.simps s False if_False append_Nil)
    have n: "nearest_decimal p q (of_int (round_half_even (\<bar>q\<bar> * 10 ^ p)) / 10 ^ p)"
      using nearest_of_round(1) [OF m, of p] q by simp
    note ru = read_unsigned [OF ip fp(1)]
    have dv: "decimal_value (ip @ CHR ''.'' # fp) =
        Some (of_int (round_half_even (\<bar>q\<bar> * 10 ^ p)) / 10 ^ p)"
      unfolding ru(4) v by simp
    show ?thesis
      unfolding Finite f prints_as.simps ru(2) ru(3) dv
      using False fp(2) can n ru(1) by simp
  qed
next
  case NegZero
  assume p: "0 < p"
  then obtain p' where p': "p = Suc p'" by (cases p) auto
  have d0: "digits_nat 0 = ''0''" by (simp add: digits_nat.simps)
  have r0: "round_half_even 0 = 0" by (simp add: round_half_even_def)
  have "fmt_fixed p 0 = ''0.'' @ replicate p (CHR ''0'')"
    by (simp add: fmt_fixed_def Let_def r0 d0 p' replicate_append_same)
  with NegZero show ?thesis by simp
next
  case PosInf
  then show ?thesis by simp
next
  case NegInf
  then show ?thesis by simp
next
  case NaN
  then show ?thesis by simp
qed

end
